theory Spec2Isabelle
  imports Main "HOL-Library.Sublist"
begin

text \<open>
  A model of \<open>src/cli.ts\<close> of diff2html-cli: the builder of the \<open>git diff\<close> argument vector,
  the template compositor, the output formatter and the remote publisher, followed by what
  is proved of them. Functions keep the names they have in the source.
\<close>

section \<open>Git argument builder (src/cli.ts, generateGitDiffArgs)\<close>

text \<open>
  Command-line arguments are JavaScript strings, modelled as \<^typ>\<open>string\<close>; an argument
  vector is a list of them. \<open>Array.prototype.includes\<close> on strings is membership by
  string equality.
\<close>

definition array_includes :: "string list \<Rightarrow> string \<Rightarrow> bool" where
  "array_includes xs x = (x \<in> set xs)"

definition defaultArgs :: "string list" where
  "defaultArgs = [''-M'', ''-C'', ''HEAD'']"

text \<open>
  The body of \<open>generateGitDiffArgs\<close>, one \<open>let\<close> per statement: every \<open>push\<close> appends
  to the vector built so far.
\<close>

definition generateGitDiffArgs :: "string list \<Rightarrow> string list \<Rightarrow> string list" where
  "generateGitDiffArgs gitArgsArr ignore =
    (let gitDiffArgs0 = [''diff''];
         gitDiffArgs1 =
           (if \<not> array_includes gitArgsArr ''--no-color'' then gitDiffArgs0 @ [''--no-color'']
            else gitDiffArgs0);
         gitDiffArgs2 =
           (if length gitArgsArr = 0 then gitDiffArgs1 @ defaultArgs else gitDiffArgs1);
         gitDiffArgs3 = gitDiffArgs2 @ gitArgsArr
     in if length ignore > 0 then
          (let gitDiffArgs4 =
                 (if \<not> array_includes gitArgsArr ''--'' then gitDiffArgs3 @ [''--'']
                  else gitDiffArgs3)
           in gitDiffArgs4 @ map (\<lambda>path. '':(exclude)'' @ path) ignore)
        else gitDiffArgs3)"

section \<open>Errors, configuration and the process\<close>

text \<open>
  A thrown JavaScript error is a value: \<open>Error msg\<close> for \<open>new Error(msg)\<close>, and
  \<open>TypeError msg\<close> for the error the language raises when a property of \<open>null\<close> is read.
  A function that can throw returns \<open>error + 'a\<close>, with \<open>Inl\<close> for the throw.
\<close>

datatype error = Error string | TypeError string

text \<open>The colour scheme tags of the rendering library (\<open>'auto'\<close>, \<open>'dark'\<close>, \<open>'light'\<close>).\<close>

datatype ColorSchemeType = Auto | Dark | Light

datatype FormatType = Html | Json

datatype DiffyType = Browser | Pbcopy | Print

text \<open>
  Modelled from the spec: the declaration of \<open>Configuration\<close> (types.ts) is not among the
  sources. The fields are the ones \<open>cli.ts\<close> reads: the template path, the three texts, the
  four boolean toggles and the output format tag.
\<close>

record Configuration =
  htmlWrapperTemplate :: string
  pageTitle :: string
  pageHeader :: string
  commitMessage :: string
  showFilesOpen :: bool
  fileContentToggle :: bool
  synchronisedScroll :: bool
  highlightCode :: bool
  formatType :: FormatType

text \<open>
  The options handed to the rendering library. \<open>cli.ts\<close> reads only \<open>colorScheme\<close>, which may
  be unset (\<open>None\<close>); everything else is passed through untouched.
\<close>

record 'r Diff2HtmlConfig =
  colorScheme :: "ColorSchemeType option"
  otherOptions :: 'r

text \<open>
  What the functions do to the world, in the order they do it. \<open>exitCode\<close> is
  \<open>process.exitCode\<close> (\<open>None\<close> while unset).
\<close>

datatype effect =
    ParseDiff string
  | RenderHtml
  | HttpPut string string
  | LogPrint string
  | OpenUrl string
  | ClipboardWrite string

record process =
  exitCode :: "int option"
  effects :: "effect list"

text \<open>
  The collaborators \<open>getOutput\<close> and \<open>prepareHTML\<close> call: the file system (\<open>fs.existsSync\<close>,
  \<open>utils.readFile\<close>, which fails on an unreadable path), the two asset paths resolved from the
  installed rendering library, the library's \<open>parse\<close> and \<open>html\<close>, and \<open>JSON.stringify\<close> on
  the diff model \<open>'d\<close>.
\<close>

record ('r, 'd) externals =
  existsSync :: "string \<Rightarrow> bool"
  readFile :: "string \<Rightarrow> error + string"
  cssFilePath :: string
  jsUiFilePath :: string
  parse :: "string \<Rightarrow> 'r Diff2HtmlConfig \<Rightarrow> 'd"
  html :: "'d \<Rightarrow> 'r Diff2HtmlConfig \<Rightarrow> string"
  stringify :: "'d \<Rightarrow> string"

section \<open>Template compositor (src/cli.ts, prepareHTML)\<close>

definition lightGitHubTheme :: string where
  \<open>lightGitHubTheme = ''<link rel="stylesheet" href="https://cdnjs.cloudflare.com/ajax/libs/highlight.js/11.9.0/styles/github.min.css" />''\<close>

definition darkGitHubTheme :: string where
  \<open>darkGitHubTheme = ''<link rel="stylesheet" href="https://cdnjs.cloudflare.com/ajax/libs/highlight.js/11.9.0/styles/github-dark.min.css" />''\<close>

definition autoGitHubTheme :: string where
  \<open>autoGitHubTheme = ''<link rel="stylesheet" href="https://cdnjs.cloudflare.com/ajax/libs/highlight.js/11.9.0/styles/github.min.css" media="screen and (prefers-color-scheme: light)" />\<newline><link rel="stylesheet" href="https://cdnjs.cloudflare.com/ajax/libs/highlight.js/11.9.0/styles/github-dark.min.css" media="screen and (prefers-color-scheme: dark)" />''\<close>

definition lightBaseStyle :: string where
  "lightBaseStyle = ''<style>\<newline>body {\<newline>  background-color: var(--d2h-bg-color);\<newline>}\<newline>h1 {\<newline>  color: var(--d2h-light-color);\<newline>}\<newline></style>''"

definition darkBaseStyle :: string where
  "darkBaseStyle = ''<style>\<newline>body {\<newline>  background-color: rgb(13, 17, 23);\<newline>}\<newline>h1 {\<newline>  color: var(--d2h-dark-color);\<newline>}\<newline></style>''"

definition autoBaseStyle :: string where
  "autoBaseStyle = ''<style>\<newline>@media screen and (prefers-color-scheme: light) {\<newline>  body {\<newline>    background-color: var(--d2h-bg-color);\<newline>  }\<newline>  h1 {\<newline>    color: var(--d2h-light-color);\<newline>  }\<newline>}\<newline>@media screen and (prefers-color-scheme: dark) {\<newline>  body {\<newline>    background-color: rgb(13, 17, 23);\<newline>  }\<newline>  h1 {\<newline>    color: var(--d2h-dark-color);\<newline>  }\<newline>}\<newline></style>''"

text \<open>The two ternaries of \<open>prepareHTML\<close>: \<open>'light'\<close>, else \<open>'dark'\<close>, else the auto fragment.\<close>

definition gitHubTheme :: "ColorSchemeType option \<Rightarrow> string" where
  "gitHubTheme scheme =
    (if scheme = Some Light then lightGitHubTheme
     else if scheme = Some Dark then darkGitHubTheme else autoGitHubTheme)"

definition baseStyle :: "ColorSchemeType option \<Rightarrow> string" where
  "baseStyle scheme =
    (if scheme = Some Light then lightBaseStyle
     else if scheme = Some Dark then darkBaseStyle else autoBaseStyle)"

text \<open>A boolean inside a template literal prints as \<open>true\<close> or \<open>false\<close>.\<close>

definition string_of_bool :: "bool \<Rightarrow> string" where
  "string_of_bool b = (if b then ''true'' else ''false'')"

text \<open>
  Modelled from the spec: \<open>utils.replaceExactly\<close> (utils.ts) is not among the sources. The
  spec has every table entry replace exactly one literal occurrence of its marker, by exact
  string matching, with the replacement inserted verbatim; the comment in \<open>prepareHTML\<close> names
  the mechanism, \<open>String.replace\<close> with a string to search for and a function as second
  argument. That replaces the first occurrence of the searched string and nothing else, and
  returns the text unchanged when there is none. An empty search string matches at the start.
\<close>

fun replaceExactly :: "string \<Rightarrow> string \<Rightarrow> string \<Rightarrow> string" where
  "replaceExactly [] search rep = (if search = [] then rep else [])"
| "replaceExactly (c # cs) search rep =
    (if prefix search (c # cs) then rep @ drop (length search) (c # cs)
     else c # replaceExactly cs search rep)"

record Replacement =
  searchValue :: string
  replaceValue :: string

text \<open>The array literal of \<open>prepareHTML\<close>, in its order.\<close>

definition replacements ::
    "string \<Rightarrow> Configuration \<Rightarrow> ColorSchemeType option \<Rightarrow> string \<Rightarrow> string \<Rightarrow> Replacement list" where
  "replacements diffHTMLContent config scheme cssContent jsUiContent =
    [\<lparr>searchValue = ''<!--diff2html-title-->'', replaceValue = pageTitle config\<rparr>,
     \<lparr>searchValue = ''<!--diff2html-css-->'',
      replaceValue = baseStyle scheme @ ''\<newline>'' @ gitHubTheme scheme @
        ''\<newline><style>\<newline>'' @ cssContent @ ''\<newline></style>''\<rparr>,
     \<lparr>searchValue = ''<!--diff2html-js-ui-->'',
      replaceValue = ''<script>\<newline>'' @ jsUiContent @ ''\<newline></script>''\<rparr>,
     \<lparr>searchValue = ''//diff2html-fileListToggle'',
      replaceValue =
        ''diff2htmlUi.fileListToggle('' @ string_of_bool (showFilesOpen config) @ '');''\<rparr>,
     \<lparr>searchValue = ''//diff2html-fileContentToggle'',
      replaceValue = (if fileContentToggle config then ''diff2htmlUi.fileContentToggle();'' else [])\<rparr>,
     \<lparr>searchValue = ''//diff2html-synchronisedScroll'',
      replaceValue = (if synchronisedScroll config then ''diff2htmlUi.synchronisedScroll();'' else [])\<rparr>,
     \<lparr>searchValue = ''//diff2html-highlightCode'',
      replaceValue = (if highlightCode config then ''diff2htmlUi.highlightCode();'' else [])\<rparr>,
     \<lparr>searchValue = ''<!--diff2html-header-->'', replaceValue = pageHeader config\<rparr>,
     \<lparr>searchValue = ''<!--diff2html-diff-->'', replaceValue = diffHTMLContent\<rparr>,
     \<lparr>searchValue = ''<!--diff2html-commit-message-->'', replaceValue = commitMessage config\<rparr>]"

text \<open>The \<open>reduce\<close> over the table: the template is the initial value.\<close>

definition substitute :: "Replacement list \<Rightarrow> string \<Rightarrow> string" where
  "substitute table template =
    foldl (\<lambda>previousValue replacement.
             replaceExactly previousValue (searchValue replacement) (replaceValue replacement))
      template table"

text \<open>
  \<open>prepareHTML\<close> reads the template and the two assets (a failed read is thrown on), picks
  the theme fragments and runs the table over the template.
\<close>

definition prepareHTML ::
    "('r, 'd) externals \<Rightarrow> string \<Rightarrow> Configuration \<Rightarrow> ColorSchemeType option \<Rightarrow> error + string" where
  "prepareHTML ext diffHTMLContent config scheme =
    (case readFile ext (htmlWrapperTemplate config) of
       Inl e \<Rightarrow> Inl e
     | Inr template \<Rightarrow>
        (case readFile ext (cssFilePath ext) of
           Inl e \<Rightarrow> Inl e
         | Inr cssContent \<Rightarrow>
            (case readFile ext (jsUiFilePath ext) of
               Inl e \<Rightarrow> Inl e
             | Inr jsUiContent \<Rightarrow>
                Inr (substitute
                      (replacements diffHTMLContent config scheme cssContent jsUiContent)
                      template))))"

section \<open>Output formatter (src/cli.ts, getOutput)\<close>

text \<open>
  A string is truthy when it is not empty. The function returns what it returns or throws,
  together with the process as it leaves it.
\<close>

definition getOutput ::
    "('r, 'd) externals \<Rightarrow> 'r Diff2HtmlConfig \<Rightarrow> Configuration \<Rightarrow> string \<Rightarrow> process \<Rightarrow>
      (error + string) \<times> process" where
  "getOutput ext options config input p =
    (if htmlWrapperTemplate config \<noteq> [] \<and> \<not> existsSync ext (htmlWrapperTemplate config) then
       (Inl (Error (''Template ('' @ [CHR 0x27] @ htmlWrapperTemplate config @ [CHR 0x27] @
                    '') not found!'')),
        p\<lparr>exitCode := Some 4\<rparr>)
     else
       (let diffJson = parse ext input options;
            p1 = p\<lparr>effects := effects p @ [ParseDiff input]\<rparr>
        in case formatType config of
             Html \<Rightarrow>
               (let htmlContent = html ext diffJson options;
                    p2 = p1\<lparr>effects := effects p1 @ [RenderHtml]\<rparr>
                in (prepareHTML ext htmlContent config (colorScheme options), p2))
           | Json \<Rightarrow> (Inr (stringify ext diffJson), p1)))"

section \<open>Remote publisher (src/cli.ts, postToDiffy)\<close>

text \<open>
  The response is whatever JSON value the service sent back (\<open>unknown\<close> in the source).
  Numbers are kept abstract in \<open>'n\<close>. An object is the list of its own properties; the first
  binding of a key is the property's value.
\<close>

datatype 'n json =
    JNull
  | JBool bool
  | JNum 'n
  | JStr string
  | JArr "'n json list"
  | JObj "(string \<times> 'n json) list"

text \<open>
  The collaborators of \<open>postToDiffy\<close>: the HTTP helper \<open>put\<close> (it may reject), the language's
  number printing and \<open>JSON.stringify(_, null, 2)\<close>.
\<close>

record 'n remote =
  put :: "string \<Rightarrow> string \<Rightarrow> error + 'n json"
  numberToString :: "'n \<Rightarrow> string"
  stringifyPretty :: "'n json \<Rightarrow> string"

text \<open>
  Reading the property \<open>id\<close> or \<open>error\<close> of a JSON value: \<open>None\<close> is \<open>undefined\<close>. Reading
  a property of \<open>null\<close> throws; booleans, numbers, strings and arrays have no such property.
\<close>

definition getProperty :: "'n json \<Rightarrow> string \<Rightarrow> error + 'n json option" where
  "getProperty obj key =
    (case obj of
       JNull \<Rightarrow>
         Inl (TypeError (''Cannot read properties of null (reading '' @ [CHR 0x27] @ key @
                         [CHR 0x27] @ '')''))
     | JObj props \<Rightarrow> Inr (map_of props key)
     | _ \<Rightarrow> Inr None)"

definition isCreateDiffResponse :: "'n json \<Rightarrow> error + bool" where
  "isCreateDiffResponse obj =
    (case getProperty obj ''id'' of Inl e \<Rightarrow> Inl e | Inr v \<Rightarrow> Inr (v \<noteq> None))"

definition isApiError :: "'n json \<Rightarrow> error + bool" where
  "isApiError obj =
    (case getProperty obj ''error'' of Inl e \<Rightarrow> Inl e | Inr v \<Rightarrow> Inr (v \<noteq> None))"

text \<open>
  The language's conversion of a value to a string, as a template literal and the \<open>Error\<close>
  constructor apply it. A string is itself; \<open>null\<close>, booleans and numbers print. An array
  joins the conversions of its elements with commas, a \<open>null\<close> element counting as the
  empty string. An object is asked for its \<open>toString\<close> method: a parsed object without a
  member of that name inherits the built-in one and prints as \<open>[object Object]\<close>; with a
  member of that name, which parsed data cannot make callable, and with the inherited
  \<open>valueOf\<close> giving back the object, the conversion throws a \<open>TypeError\<close>. A conversion that
  throws inside an array throws out of it.
\<close>

fun joinComma :: "string list \<Rightarrow> string" where
  "joinComma [] = []"
| "joinComma [s] = s"
| "joinComma (s # t # ts) = s @ '','' @ joinComma (t # ts)"

fun firstThrow :: "(error + 'a) list \<Rightarrow> error + 'a list" where
  "firstThrow [] = Inr []"
| "firstThrow (Inl e # rs) = Inl e"
| "firstThrow (Inr x # rs) = (case firstThrow rs of Inl e \<Rightarrow> Inl e | Inr xs \<Rightarrow> Inr (x # xs))"

fun toString :: "('n \<Rightarrow> string) \<Rightarrow> 'n json \<Rightarrow> error + string" where
  "toString num JNull = Inr ''null''"
| "toString num (JBool b) = Inr (string_of_bool b)"
| "toString num (JNum n) = Inr (num n)"
| "toString num (JStr s) = Inr s"
| "toString num (JArr vs) =
     (case firstThrow (map (\<lambda>v. if v = JNull then Inr [] else toString num v) vs) of
        Inl e \<Rightarrow> Inl e
      | Inr printed \<Rightarrow> Inr (joinComma printed))"
| "toString num (JObj props) =
     (if map_of props ''toString'' \<noteq> None
      then Inl (TypeError ''Cannot convert object to primitive value'')
      else Inr ''[object Object]'')"

text \<open>
  \<open>postToDiffy\<close>: the request, the discrimination of the response, then the address, the
  two log lines and the output mode. A rejected promise is \<open>Inl\<close>; a conversion to a string
  that throws, in \<open>new Error(response.error)\<close> or in the template literal of the address,
  rejects it too.
\<close>

definition postToDiffy ::
    "'n remote \<Rightarrow> string \<Rightarrow> DiffyType \<Rightarrow> process \<Rightarrow> (error + string) \<times> process" where
  "postToDiffy rem diff diffyOutput p =
    (let p1 = p\<lparr>effects := effects p @ [HttpPut ''https://diffy.org/api/diff/'' diff]\<rparr>
     in case put rem ''https://diffy.org/api/diff/'' diff of
          Inl e \<Rightarrow> (Inl e, p1)
        | Inr response \<Rightarrow>
           (case isCreateDiffResponse response of
              Inl e \<Rightarrow> (Inl e, p1)
            | Inr False \<Rightarrow>
               (case isApiError response of
                  Inl e \<Rightarrow> (Inl e, p1)
                | Inr True \<Rightarrow>
                   (case getProperty response ''error'' of
                      Inr (Some v) \<Rightarrow>
                        (case toString (numberToString rem) v of
                           Inl e \<Rightarrow> (Inl e, p1)
                         | Inr message \<Rightarrow> (Inl (Error message), p1))
                    | _ \<Rightarrow> (Inl (Error []), p1))
                | Inr False \<Rightarrow>
                   (Inl (Error
                      (''Could not find '' @ [CHR 0x27] @ ''id'' @ [CHR 0x27] @
                       '' of created diff in the response json.\<newline>Body:\<newline>\<newline>'' @
                       stringifyPretty rem response)),
                    p1))
            | Inr True \<Rightarrow>
               (case (case getProperty response ''id'' of
                        Inr (Some v) \<Rightarrow> toString (numberToString rem) v
                      | _ \<Rightarrow> Inr ''undefined'') of
                  Inl e \<Rightarrow> (Inl e, p1)
                | Inr printed \<Rightarrow>
                   (let url = ''https://diffy.org/diff/'' @ printed;
                        p2 = p1\<lparr>effects := effects p1 @
                               [LogPrint ''Link powered by https://diffy.org'', LogPrint url]\<rparr>;
                        p3 = (if diffyOutput = Browser
                                then p2\<lparr>effects := effects p2 @ [OpenUrl url]\<rparr>
                              else if diffyOutput = Pbcopy
                                then p2\<lparr>effects := effects p2 @ [ClipboardWrite url]\<rparr>
                              else p2)
                    in (Inr url, p3)))))"

section \<open>Templates as fragments and markers\<close>

text \<open>
  To speak about where the markers of a template stand, a template is written as a list of
  segments: literal text, or a marker. \<open>render \<sigma>\<close> writes the segments out with \<open>\<sigma> m\<close>
  in the place of the marker \<open>m\<close>: \<open>render (\<lambda>m. m)\<close> is the template text itself, and
  \<open>render (valueOf table)\<close> is the text with every marker of the table exchanged for its
  replacement value.
\<close>

datatype segment = Lit string | Mark string

fun render :: "(string \<Rightarrow> string) \<Rightarrow> segment list \<Rightarrow> string" where
  "render \<sigma> [] = []"
| "render \<sigma> (Lit s # segs) = s @ render \<sigma> segs"
| "render \<sigma> (Mark m # segs) = \<sigma> m @ render \<sigma> segs"

fun marks :: "segment list \<Rightarrow> string list" where
  "marks [] = []"
| "marks (Lit s # segs) = marks segs"
| "marks (Mark m # segs) = m # marks segs"

fun valueOf :: "Replacement list \<Rightarrow> string \<Rightarrow> string" where
  "valueOf [] m = m"
| "valueOf (r # rs) m = (if searchValue r = m then replaceValue r else valueOf rs m)"

text \<open>
  Two words do not overlap when neither occurs in the other and no non-empty end of one
  is a beginning of the other; a word is unbordered when no proper non-empty end of it is
  a beginning of it.
\<close>

definition no_overlap :: "string \<Rightarrow> string \<Rightarrow> bool" where
  "no_overlap a b =
    (\<not> sublist a b \<and> \<not> sublist b a \<and>
     (\<forall>s \<in> set (suffixes a). s \<noteq> [] \<longrightarrow> \<not> prefix s b) \<and>
     (\<forall>s \<in> set (suffixes b). s \<noteq> [] \<longrightarrow> \<not> prefix s a))"

definition unbordered :: "string \<Rightarrow> bool" where
  "unbordered a =
    (a \<noteq> [] \<and> (\<forall>s \<in> set (suffixes a). s \<noteq> [] \<and> s \<noteq> a \<longrightarrow> \<not> prefix s a))"

fun lits :: "segment list \<Rightarrow> string list" where
  "lits [] = []"
| "lits (Lit s # segs) = s # lits segs"
| "lits (Mark m # segs) = lits segs"

text \<open>
  Every marker opens with one of two words. A text is plain when neither of them occurs
  in it and it does not end with a non-empty beginning of one: then no marker can stand in
  it, nor arise where it is joined to another plain text.
\<close>

definition marker_openings :: "string list" where
  "marker_openings = [''<!--diff2html-'', ''//diff2html-'']"

definition plain :: "string \<Rightarrow> bool" where
  "plain p =
    (\<forall>a \<in> set marker_openings.
       \<not> sublist a p \<and> (\<forall>u \<in> set (prefixes a). u \<noteq> [] \<longrightarrow> \<not> suffix u p))"

text \<open>The ten markers, in the order of the table.\<close>

definition markers :: "string list" where
  "markers =
    [''<!--diff2html-title-->'', ''<!--diff2html-css-->'', ''<!--diff2html-js-ui-->'',
     ''//diff2html-fileListToggle'', ''//diff2html-fileContentToggle'',
     ''//diff2html-synchronisedScroll'', ''//diff2html-highlightCode'',
     ''<!--diff2html-header-->'', ''<!--diff2html-diff-->'',
     ''<!--diff2html-commit-message-->'']"

section \<open>Sample inputs\<close>

text \<open>
  Concrete collaborators, for evaluating the functions: a file system given by the list of
  its files, a parser that counts the characters of its input, a renderer and a serialiser
  with fixed answers.
\<close>

definition sample_files :: "(string \<times> string) list \<Rightarrow> (unit, nat) externals" where
  \<open>sample_files files =
    \<lparr>existsSync = (\<lambda>path. map_of files path \<noteq> None),
     readFile = (\<lambda>path. case map_of files path of
                           None \<Rightarrow> Inl (Error ''ENOENT'') | Some text \<Rightarrow> Inr text),
     cssFilePath = ''diff2html.min.css'', jsUiFilePath = ''diff2html-ui-slim.min.js'',
     parse = (\<lambda>text opts. length text),
     html = (\<lambda>d opts. ''<div class="d2h-wrapper"></div>''),
     stringify = (\<lambda>d. if d = 18 then ''[18]'' else ''[]'')\<rparr>\<close>

text \<open>
  A template with the ten markers, each once, the header marker last: \<open>sample_front m\<close> is
  the part before the header marker, with \<open>m\<close> where the title marker stands. Then the
  file system with a template and two short assets, a configuration whose commit message
  has the characters \<open>$&\<close> and \<open>$1\<close>, and the page these give under the light scheme, for
  the text shown as title and the text shown as header.
\<close>

definition sample_front :: "string \<Rightarrow> segment list" where
  \<open>sample_front m =
    [Lit ''<html><head><title>'', Mark m, Lit ''</title>\<newline>'',
     Mark ''<!--diff2html-css-->'', Lit ''\<newline>'', Mark ''<!--diff2html-js-ui-->'',
     Lit ''\<newline><script>\<newline>'', Mark ''//diff2html-fileListToggle'', Lit ''\<newline>'',
     Mark ''//diff2html-fileContentToggle'', Lit ''\<newline>'',
     Mark ''//diff2html-synchronisedScroll'', Lit ''\<newline>'',
     Mark ''//diff2html-highlightCode'', Lit ''\<newline></script></head><body><p>'',
     Mark ''<!--diff2html-commit-message-->'', Lit ''</p><div id="diff">'',
     Mark ''<!--diff2html-diff-->'', Lit ''</div><h1>'']\<close>

definition sample_template :: "segment list" where
  "sample_template =
    sample_front ''<!--diff2html-title-->'' @
    [Mark ''<!--diff2html-header-->'', Lit ''</h1></body></html>'']"

definition sample_assets :: "string \<Rightarrow> (unit, nat) externals" where
  "sample_assets template =
    sample_files [(''template.html'', template), (''diff2html.min.css'', ''.d2h{}''),
                  (''diff2html-ui-slim.min.js'', ''var d2h;'')]"

definition sample_config :: Configuration where
  "sample_config =
    \<lparr>htmlWrapperTemplate = ''template.html'', pageTitle = ''Diff to HTML'', pageHeader = ''Diff'',
     commitMessage = ''fix: $& and $1'', showFilesOpen = False, fileContentToggle = True,
     synchronisedScroll = True, highlightCode = False, formatType = Html\<rparr>"

definition sample_page :: "string \<Rightarrow> string \<Rightarrow> string" where
  \<open>sample_page shownTitle shownHeader =
   ''<html><head><title>'' @ shownTitle @ ''</title>\<newline>'' @ lightBaseStyle @ ''\<newline>'' @
   lightGitHubTheme @ ''\<newline><style>\<newline>.d2h{}\<newline></style>\<newline><script>\<newline>var d2h;\<newline></script>\<newline><script>\<newline>diff2htmlUi.fileListToggle(false);\<newline>diff2htmlUi.fileContentToggle();\<newline>diff2htmlUi.synchronisedScroll();\<newline>\<newline></script></head><body><p>fix: $& and $1</p><div id="diff"><div class=d2h></div></div><h1>'' @
   shownHeader @ ''</h1></body></html>''\<close>

text \<open>
  A service that answers every request with the given response; \<open>JSON.stringify\<close> is only
  needed on the empty object.
\<close>

definition sample_remote :: "'n json \<Rightarrow> 'n remote" where
  "sample_remote response =
    \<lparr>put = (\<lambda>url body. Inr response), numberToString = (\<lambda>n. ''0''),
     stringifyPretty = (\<lambda>v. if v = JObj [] then ''{}'' else ''?'')\<rparr>"

section \<open>Counting tokens in the built vector\<close>

lemma count_list_exclude:
  assumes "hd d \<noteq> CHR '':''"
  shows "count_list (map ((@) '':(exclude)'') ignore) d = 0"
proof (induction ignore)
  case Nil
  show ?case by simp
next
  case (Cons p ps)
  from assms have "'':(exclude)'' @ p \<noteq> d" by auto
  with Cons show ?case by simp
qed

lemma generateGitDiffArgs_eq:
  "generateGitDiffArgs gitArgsArr ignore =
     [''diff''] @ (if array_includes gitArgsArr ''--no-color'' then [] else [''--no-color'']) @
     (if gitArgsArr = [] then defaultArgs else []) @ gitArgsArr @
     (if ignore = [] then []
      else (if array_includes gitArgsArr ''--'' then [] else [''--'']) @
           map ((@) '':(exclude)'') ignore)"
  by (cases "gitArgsArr = []"; cases "ignore = []"; simp add: generateGitDiffArgs_def Let_def array_includes_def)

lemma count_list_generateGitDiffArgs:
  assumes "hd d \<noteq> CHR '':''" and "d \<noteq> ''diff''"
  shows "count_list (generateGitDiffArgs gitArgsArr ignore) d =
    (if d = ''--no-color'' \<and> \<not> array_includes gitArgsArr ''--no-color'' then 1 else 0) +
    (if gitArgsArr = [] then count_list defaultArgs d else 0) +
    count_list gitArgsArr d +
    (if d = ''--'' \<and> ignore \<noteq> [] \<and> \<not> array_includes gitArgsArr ''--'' then 1 else 0)"
  unfolding generateGitDiffArgs_eq count_list_append
  using assms by (auto simp: array_includes_def count_list_exclude)

section \<open>Properties of the argument builder\<close>

text \<open>
  C3. With an empty caller argument list the built vector begins
  \<open>diff --no-color -M -C HEAD\<close>, so it contains the default set. With a non-empty caller
  argument list the vector is \<open>diff\<close>, \<open>--no-color\<close> unless the caller gave it, the caller's
  own arguments and the exclusion part, and nothing else: each default token occurs exactly
  as often as the caller supplied it, whether or not the caller's list contains \<open>--no-color\<close>.
\<close>

theorem generateGitDiffArgs_defaults:
  "sublist defaultArgs (generateGitDiffArgs [] ignore) \<and>
   take 5 (generateGitDiffArgs [] ignore) = [''diff'', ''--no-color'', ''-M'', ''-C'', ''HEAD''] \<and>
   (gitArgsArr \<noteq> [] \<longrightarrow>
      (\<forall>d \<in> set defaultArgs.
         count_list (generateGitDiffArgs gitArgsArr ignore) d = count_list gitArgsArr d) \<and>
      generateGitDiffArgs gitArgsArr ignore =
        ''diff'' # (if array_includes gitArgsArr ''--no-color'' then [] else [''--no-color'']) @
        gitArgsArr @
        (if ignore = [] then []
         else (if array_includes gitArgsArr ''--'' then [] else [''--'']) @
              map (\<lambda>path. '':(exclude)'' @ path) ignore))"
proof (intro conjI impI ballI)
  have "generateGitDiffArgs [] ignore =
      [''diff'', ''--no-color''] @ defaultArgs @
      (if ignore = [] then [] else ''--'' # map ((@) '':(exclude)'') ignore)"
    by (simp add: generateGitDiffArgs_eq array_includes_def)
  then show "sublist defaultArgs (generateGitDiffArgs [] ignore)"
    by (simp only: sublist_appendI)
  show "take 5 (generateGitDiffArgs [] ignore) = [''diff'', ''--no-color'', ''-M'', ''-C'', ''HEAD'']"
    by (simp add: generateGitDiffArgs_eq array_includes_def defaultArgs_def)
next
  fix d
  assume ne: "gitArgsArr \<noteq> []" and d: "d \<in> set defaultArgs"
  from d have "hd d \<noteq> CHR '':''" "d \<noteq> ''diff''" "d \<noteq> ''--no-color''" "d \<noteq> ''--''"
    by (auto simp: defaultArgs_def)
  with ne show "count_list (generateGitDiffArgs gitArgsArr ignore) d = count_list gitArgsArr d"
    by (simp add: count_list_generateGitDiffArgs)
next
  assume ne: "gitArgsArr \<noteq> []"
  then show "generateGitDiffArgs gitArgsArr ignore =
        ''diff'' # (if array_includes gitArgsArr ''--no-color'' then [] else [''--no-color'']) @
        gitArgsArr @
        (if ignore = [] then []
         else (if array_includes gitArgsArr ''--'' then [] else [''--'']) @
              map (\<lambda>path. '':(exclude)'' @ path) ignore)"
    by (simp add: generateGitDiffArgs_eq)
qed

theorem generateGitDiffArgs_defaults_witness:
  "sublist defaultArgs (generateGitDiffArgs [] []) \<and>
   generateGitDiffArgs [''--stat''] [''a.lock''] =
     [''diff'', ''--no-color'', ''--stat'', ''--'', '':(exclude)a.lock''] \<and>
   count_list (generateGitDiffArgs [''--stat''] [''a.lock'']) ''-M'' = 0 \<and>
   count_list (generateGitDiffArgs [''--no-color'', ''-M''] []) ''-M'' = 1"
  using generateGitDiffArgs_defaults [of "[]" "[''--stat'']"]
    generateGitDiffArgs_defaults [of "[''a.lock'']" "[''--stat'']"]
    generateGitDiffArgs_defaults [of "[]" "[''--no-color'', ''-M'']"]
  by (simp add: array_includes_def defaultArgs_def)

text \<open>
  C4 as stated fails: the caller's arguments are appended as they are, so a caller list
  with \<open>--no-color\<close> twice gives a vector with \<open>--no-color\<close> twice.
\<close>

theorem generateGitDiffArgs_no_color_twice:
  "array_includes [''--no-color'', ''--no-color''] ''--no-color'' \<and>
   generateGitDiffArgs [''--no-color'', ''--no-color''] [] = [''diff'', ''--no-color'', ''--no-color''] \<and>
   count_list (generateGitDiffArgs [''--no-color'', ''--no-color''] []) ''--no-color'' \<noteq> 1"
  by (simp add: generateGitDiffArgs_eq array_includes_def)

text \<open>
  C4, amended. For every caller argument list that contains \<open>--no-color\<close>, the builder adds
  no occurrence of its own: the built vector contains \<open>--no-color\<close> exactly as often as the
  caller's list does, so exactly once when the caller's list contains it once.
\<close>

theorem generateGitDiffArgs_no_color_count:
  assumes "array_includes gitArgsArr ''--no-color''"
  shows "count_list (generateGitDiffArgs gitArgsArr ignore) ''--no-color'' =
           count_list gitArgsArr ''--no-color'' \<and>
         (count_list gitArgsArr ''--no-color'' = 1 \<longrightarrow>
            count_list (generateGitDiffArgs gitArgsArr ignore) ''--no-color'' = 1)"
proof -
  from assms have "gitArgsArr \<noteq> []"
    by (auto simp: array_includes_def)
  with assms show ?thesis
    by (simp add: count_list_generateGitDiffArgs)
qed

theorem generateGitDiffArgs_no_color_count_witness:
  "array_includes [''--no-color'', ''HEAD~1''] ''--no-color'' \<and>
   count_list (generateGitDiffArgs [''--no-color'', ''HEAD~1''] [''yarn.lock'']) ''--no-color'' = 1"
proof -
  have h: "array_includes [''--no-color'', ''HEAD~1''] ''--no-color''"
    by (simp add: array_includes_def)
  from generateGitDiffArgs_no_color_count [OF h, of "[''yarn.lock'']"] h
  show ?thesis by simp
qed

text \<open>
  C5 as stated fails: a caller list with the separator \<open>--\<close> twice keeps both.
\<close>

theorem generateGitDiffArgs_separator_twice:
  "[''x.lock''] \<noteq> [] \<and>
   generateGitDiffArgs [''--'', ''--''] [''x.lock''] =
     [''diff'', ''--no-color'', ''--'', ''--'', '':(exclude)x.lock''] \<and>
   count_list (generateGitDiffArgs [''--'', ''--''] [''x.lock'']) ''--'' \<noteq> 1"
  by (simp add: generateGitDiffArgs_eq array_includes_def)

text \<open>
  C5, amended. For every caller argument list and every non-empty exclusion list, the
  builder appends the separator \<open>--\<close> only when the caller's list lacks it and removes
  none: the vector contains \<open>--\<close> as often as the caller's list does, or once when the
  caller's list has none, hence exactly once whenever the caller's list has at most one.
  The vector ends with one \<open>:(exclude)<path>\<close> entry per exclusion path, in the order of
  the exclusion list.
\<close>

theorem generateGitDiffArgs_exclusions:
  assumes "ignore \<noteq> []"
  shows "count_list (generateGitDiffArgs gitArgsArr ignore) ''--'' =
           (if array_includes gitArgsArr ''--'' then count_list gitArgsArr ''--'' else 1) \<and>
         (count_list gitArgsArr ''--'' \<le> 1 \<longrightarrow>
            count_list (generateGitDiffArgs gitArgsArr ignore) ''--'' = 1) \<and>
         generateGitDiffArgs gitArgsArr ignore =
           generateGitDiffArgs gitArgsArr [] @
           (if array_includes gitArgsArr ''--'' then [] else [''--'']) @
           map (\<lambda>path. '':(exclude)'' @ path) ignore"
proof (intro conjI impI)
  have notin: "\<not> array_includes gitArgsArr ''--'' \<Longrightarrow> count_list gitArgsArr ''--'' = 0"
    by (simp add: array_includes_def count_list_0_iff)
  have isin: "array_includes gitArgsArr ''--'' \<Longrightarrow> 0 < count_list gitArgsArr ''--''"
    using count_list_0_iff [of gitArgsArr "''--''"] by (auto simp: array_includes_def)
  show c: "count_list (generateGitDiffArgs gitArgsArr ignore) ''--'' =
           (if array_includes gitArgsArr ''--'' then count_list gitArgsArr ''--'' else 1)"
    using assms notin
    by (auto simp: count_list_generateGitDiffArgs defaultArgs_def array_includes_def)
  show "count_list (generateGitDiffArgs gitArgsArr ignore) ''--'' = 1"
    if "count_list gitArgsArr ''--'' \<le> 1"
    using that c isin by (cases "array_includes gitArgsArr ''--''") simp_all
  show "generateGitDiffArgs gitArgsArr ignore =
           generateGitDiffArgs gitArgsArr [] @
           (if array_includes gitArgsArr ''--'' then [] else [''--'']) @
           map (\<lambda>path. '':(exclude)'' @ path) ignore"
    using assms by (simp add: generateGitDiffArgs_eq)
qed

theorem generateGitDiffArgs_exclusions_witness:
  "[''a.lock'', ''b.min.js''] \<noteq> [] \<and>
   count_list (generateGitDiffArgs [''HEAD~2''] [''a.lock'', ''b.min.js'']) ''--'' = 1 \<and>
   generateGitDiffArgs [''HEAD~2''] [''a.lock'', ''b.min.js''] =
     [''diff'', ''--no-color'', ''HEAD~2'', ''--'', '':(exclude)a.lock'', '':(exclude)b.min.js'']"
proof -
  have h: "[''a.lock'', ''b.min.js''] \<noteq> ([] :: string list)" by simp
  from generateGitDiffArgs_exclusions [OF h, of "[''HEAD~2'']"]
  show ?thesis by (simp add: array_includes_def generateGitDiffArgs_eq)
qed

section \<open>Properties of the output formatter\<close>

lemma getOutput_guard:
  assumes "htmlWrapperTemplate config \<noteq> []"
    and "\<not> existsSync ext (htmlWrapperTemplate config)"
  shows "getOutput ext options config input p =
    (Inl (Error (''Template ('' @ [CHR 0x27] @ htmlWrapperTemplate config @ [CHR 0x27] @
                 '') not found!'')),
     p\<lparr>exitCode := Some 4\<rparr>)"
  using assms by (simp add: getOutput_def)

text \<open>
  C2. When a template path is configured and no file is there, \<open>getOutput\<close> throws the
  template-not-found error and leaves the exit code at 4. Nothing else has happened: the
  list of effects is as it was (the parser and the renderer were not called), and the
  outcome is the same whatever the parser, the renderer, the serialiser and the file reader
  would have done.
\<close>

theorem getOutput_template_not_found:
  assumes "htmlWrapperTemplate config \<noteq> []"
    and "\<not> existsSync ext (htmlWrapperTemplate config)"
  shows "fst (getOutput ext options config input p) =
           Inl (Error (''Template ('' @ [CHR 0x27] @ htmlWrapperTemplate config @ [CHR 0x27] @
                       '') not found!'')) \<and>
         exitCode (snd (getOutput ext options config input p)) = Some 4 \<and>
         effects (snd (getOutput ext options config input p)) = effects p \<and>
         (\<forall>parse' html' stringify' readFile'.
            getOutput (ext\<lparr>readFile := readFile', parse := parse', html := html',
                           stringify := stringify'\<rparr>) options config input p =
            getOutput ext options config input p)"
proof -
  have "getOutput (ext\<lparr>readFile := readFile', parse := parse', html := html',
                      stringify := stringify'\<rparr>) options config input p =
        getOutput ext options config input p" for parse' html' stringify' readFile'
    using assms by (simp add: getOutput_def)
  then show ?thesis
    by (simp add: getOutput_guard [OF assms])
qed

theorem getOutput_template_not_found_witness:
  "getOutput (sample_files []) \<lparr>colorScheme = None, otherOptions = ()\<rparr> sample_config
     ''diff --git a/f b/f'' \<lparr>exitCode = None, effects = []\<rparr> =
     (Inl (Error (''Template ('' @ [CHR 0x27] @ ''template.html'' @ [CHR 0x27] @ '') not found!'')),
      \<lparr>exitCode = Some 4, effects = []\<rparr>)"
proof -
  have a: "htmlWrapperTemplate sample_config \<noteq> []"
    by (simp add: sample_config_def)
  have b: "\<not> existsSync (sample_files []) (htmlWrapperTemplate sample_config)"
    by (simp add: sample_files_def)
  from getOutput_template_not_found [OF a b, of "\<lparr>colorScheme = None, otherOptions = ()\<rparr>"
      "''diff --git a/f b/f''" "\<lparr>exitCode = None, effects = []\<rparr>"]
  show ?thesis
    by (cases "getOutput (sample_files []) \<lparr>colorScheme = None, otherOptions = ()\<rparr> sample_config
          ''diff --git a/f b/f'' \<lparr>exitCode = None, effects = []\<rparr>")
       (auto simp: process.equality sample_config_def)
qed

text \<open>
  C10. With the output format \<open>json\<close> the guard is the same: a configured template path
  with no file behind it gives the template-not-found error and exit code 4. When the guard
  passes, the result is the serialised diff model after one call of the parser, and no file
  read has any part in it.
\<close>

theorem getOutput_json_guard:
  assumes "formatType config = Json"
  shows "(htmlWrapperTemplate config \<noteq> [] \<and> \<not> existsSync ext (htmlWrapperTemplate config) \<longrightarrow>
            getOutput ext options config input p =
              (Inl (Error (''Template ('' @ [CHR 0x27] @ htmlWrapperTemplate config @
                           [CHR 0x27] @ '') not found!'')),
               p\<lparr>exitCode := Some 4\<rparr>)) \<and>
         (htmlWrapperTemplate config = [] \<or> existsSync ext (htmlWrapperTemplate config) \<longrightarrow>
            getOutput ext options config input p =
              (Inr (stringify ext (parse ext input options)),
               p\<lparr>effects := effects p @ [ParseDiff input]\<rparr>)) \<and>
         (\<forall>readFile'. getOutput (ext\<lparr>readFile := readFile'\<rparr>) options config input p =
            getOutput ext options config input p)"
  using assms by (auto simp: getOutput_def Let_def)

theorem getOutput_json_guard_witness:
  "getOutput (sample_files []) \<lparr>colorScheme = None, otherOptions = ()\<rparr>
     (sample_config\<lparr>formatType := Json\<rparr>)
     ''diff --git a/f b/f'' \<lparr>exitCode = None, effects = []\<rparr> =
     (Inl (Error (''Template ('' @ [CHR 0x27] @ ''template.html'' @ [CHR 0x27] @ '') not found!'')),
      \<lparr>exitCode = Some 4, effects = []\<rparr>) \<and>
   getOutput (sample_assets []) \<lparr>colorScheme = None, otherOptions = ()\<rparr>
     (sample_config\<lparr>formatType := Json\<rparr>)
     ''diff --git a/f b/f'' \<lparr>exitCode = None, effects = []\<rparr> =
     (Inr ''[18]'', \<lparr>exitCode = None, effects = [ParseDiff ''diff --git a/f b/f'']\<rparr>)"
proof -
  have json: "formatType (sample_config\<lparr>formatType := Json\<rparr>) = Json"
    by simp
  from getOutput_json_guard [OF json, of "sample_files []"
      "\<lparr>colorScheme = None, otherOptions = ()\<rparr>" "''diff --git a/f b/f''"
      "\<lparr>exitCode = None, effects = []\<rparr>"]
    getOutput_json_guard [OF json, of "sample_assets []"
      "\<lparr>colorScheme = None, otherOptions = ()\<rparr>" "''diff --git a/f b/f''"
      "\<lparr>exitCode = None, effects = []\<rparr>"]
  show ?thesis
    by (simp add: sample_files_def sample_assets_def sample_config_def)
qed

section \<open>Properties of the remote publisher\<close>

lemma getProperty_cases:
  obtains (null) "obj = JNull" | (undefined) "getProperty obj key = Inr None"
    | (defined) v where "getProperty obj key = Inr (Some v)"
  by (cases obj; cases "getProperty obj key") (auto simp: getProperty_def)

lemma postToDiffy_created:
  assumes "put rem ''https://diffy.org/api/diff/'' diff = Inr response"
    and "getProperty response ''id'' = Inr (Some v)"
  shows "fst (postToDiffy rem diff diffyOutput p) =
    (case toString (numberToString rem) v of
       Inl e \<Rightarrow> Inl e
     | Inr printed \<Rightarrow> Inr (''https://diffy.org/diff/'' @ printed))"
  using assms
  by (cases "toString (numberToString rem) v")
     (simp_all add: postToDiffy_def isCreateDiffResponse_def Let_def)

text \<open>
  C6 as stated fails: the \<open>id\<close> goes into the address through a template literal, which
  converts it to a string, and the conversion throws for a value that has no string form.
  A response whose \<open>id\<close> is an object with a member called \<open>toString\<close> is such a value:
  nothing is returned.
\<close>

theorem postToDiffy_unprintable_id:
  "getProperty (JObj [(''id'', JObj [(''toString'', JStr ''x'')])] :: unit json) ''id'' =
     Inr (Some (JObj [(''toString'', JStr ''x'')])) \<and>
   fst (postToDiffy (sample_remote (JObj [(''id'', JObj [(''toString'', JStr ''x'')])] :: unit json))
          ''diff --git a/f b/f'' Print \<lparr>exitCode = None, effects = []\<rparr>) =
     Inl (TypeError ''Cannot convert object to primitive value'')"
  by (simp add: postToDiffy_def isCreateDiffResponse_def getProperty_def sample_remote_def)

text \<open>
  C6, amended. When the request resolves with a response that has an \<open>id\<close> and the
  language can convert that \<open>id\<close> to a string, \<open>postToDiffy\<close> returns
  \<open>https://diffy.org/diff/\<close> followed by the converted \<open>id\<close>, which for a string \<open>i\<close> is
  \<open>i\<close> itself; this for every diff text and every output mode, and the three modes return
  the same. When the conversion throws, its error is thrown on.
\<close>

theorem postToDiffy_returns_url:
  assumes "put rem ''https://diffy.org/api/diff/'' diff = Inr response"
    and "getProperty response ''id'' = Inr (Some v)"
  shows "(\<forall>printed. toString (numberToString rem) v = Inr printed \<longrightarrow>
            fst (postToDiffy rem diff diffyOutput p) = Inr (''https://diffy.org/diff/'' @ printed)) \<and>
         (\<forall>i. v = JStr i \<longrightarrow>
            fst (postToDiffy rem diff diffyOutput p) = Inr (''https://diffy.org/diff/'' @ i)) \<and>
         (\<forall>e. toString (numberToString rem) v = Inl e \<longrightarrow>
            fst (postToDiffy rem diff diffyOutput p) = Inl e) \<and>
         fst (postToDiffy rem diff Browser p) = fst (postToDiffy rem diff Print p) \<and>
         fst (postToDiffy rem diff Pbcopy p) = fst (postToDiffy rem diff Print p)"
  by (auto simp: postToDiffy_created [OF assms])

theorem postToDiffy_returns_url_witness:
  "fst (postToDiffy (sample_remote (JObj [(''id'', JStr ''abc123'')] :: unit json))
          ''diff --git a/f b/f'' Pbcopy \<lparr>exitCode = None, effects = []\<rparr>) =
     Inr ''https://diffy.org/diff/abc123''"
proof -
  have a: "put (sample_remote (JObj [(''id'', JStr ''abc123'')] :: unit json))
             ''https://diffy.org/api/diff/'' ''diff --git a/f b/f'' =
           Inr (JObj [(''id'', JStr ''abc123'')])"
    by (simp add: sample_remote_def)
  have b: "getProperty (JObj [(''id'', JStr ''abc123'')] :: unit json) ''id'' =
           Inr (Some (JStr ''abc123''))"
    by (simp add: getProperty_def)
  from postToDiffy_returns_url [OF a b, of Pbcopy "\<lparr>exitCode = None, effects = []\<rparr>"]
  show ?thesis by simp
qed

lemma postToDiffy_null:
  assumes "put rem ''https://diffy.org/api/diff/'' diff = Inr JNull"
  shows "fst (postToDiffy rem diff diffyOutput p) =
    Inl (TypeError (''Cannot read properties of null (reading '' @ [CHR 0x27] @ ''id'' @
                    [CHR 0x27] @ '')''))"
  using assms by (simp add: postToDiffy_def isCreateDiffResponse_def getProperty_def)

text \<open>
  C7 as stated fails: \<open>new Error(response.error)\<close> converts the \<open>error\<close> to a string, and
  for a value that has no string form the conversion throws its own error in place of the
  one being built. Here the response has no \<open>id\<close> and its \<open>error\<close> is an object with a
  member called \<open>toString\<close>.
\<close>

theorem postToDiffy_unprintable_error:
  "getProperty (JObj [(''error'', JObj [(''toString'', JStr ''x'')])] :: unit json) ''id'' =
     Inr None \<and>
   getProperty (JObj [(''error'', JObj [(''toString'', JStr ''x'')])] :: unit json) ''error'' =
     Inr (Some (JObj [(''toString'', JStr ''x'')])) \<and>
   fst (postToDiffy (sample_remote (JObj [(''error'', JObj [(''toString'', JStr ''x'')])] :: unit json))
          ''diff --git a/f b/f'' Print \<lparr>exitCode = None, effects = []\<rparr>) =
     Inl (TypeError ''Cannot convert object to primitive value'')"
  by (simp add: postToDiffy_def isCreateDiffResponse_def isApiError_def getProperty_def
      sample_remote_def)

text \<open>
  C7, amended. When the request resolves with a response that has no \<open>id\<close>,
  \<open>postToDiffy\<close> throws. If the response has an \<open>error\<close> that the language can convert to
  a string, the error thrown has exactly the converted \<open>error\<close> as its message, which for a
  string \<open>msg\<close> is \<open>msg\<close> itself; when the conversion throws, its error is the one thrown.
  If \<open>error\<close> is undefined too, the message ends with the pretty-printed response body.
  The one response that has no properties to read is \<open>null\<close>: there the language's own
  error is thrown, and its message names \<open>null\<close>.
\<close>

theorem postToDiffy_throws:
  assumes "put rem ''https://diffy.org/api/diff/'' diff = Inr response"
    and "\<forall>v. getProperty response ''id'' \<noteq> Inr (Some v)"
  shows "(\<forall>msg. getProperty response ''error'' = Inr (Some (JStr msg)) \<longrightarrow>
            fst (postToDiffy rem diff diffyOutput p) = Inl (Error msg)) \<and>
         (\<forall>v printed. getProperty response ''error'' = Inr (Some v) \<longrightarrow>
            toString (numberToString rem) v = Inr printed \<longrightarrow>
            fst (postToDiffy rem diff diffyOutput p) = Inl (Error printed)) \<and>
         (\<forall>v e. getProperty response ''error'' = Inr (Some v) \<longrightarrow>
            toString (numberToString rem) v = Inl e \<longrightarrow>
            fst (postToDiffy rem diff diffyOutput p) = Inl e) \<and>
         (getProperty response ''error'' = Inr None \<longrightarrow>
            fst (postToDiffy rem diff diffyOutput p) =
              Inl (Error (''Could not find '' @ [CHR 0x27] @ ''id'' @ [CHR 0x27] @
                     '' of created diff in the response json.\<newline>Body:\<newline>\<newline>'' @
                     stringifyPretty rem response)) \<and>
            (\<exists>msg. fst (postToDiffy rem diff diffyOutput p) = Inl (Error msg) \<and>
                   sublist (stringifyPretty rem response) msg)) \<and>
         (response = JNull \<longrightarrow>
            (\<exists>msg. fst (postToDiffy rem diff diffyOutput p) = Inl (TypeError msg) \<and>
                   sublist ''null'' msg)) \<and>
         (\<exists>e. fst (postToDiffy rem diff diffyOutput p) = Inl e)"
proof -
  have null: "\<exists>msg. fst (postToDiffy rem diff diffyOutput p) = Inl (TypeError msg) \<and>
      sublist ''null'' msg" if "response = JNull"
  proof -
    have "sublist ''null'' (''Cannot read properties of '' @ ''null'' @
        ('' (reading '' @ [CHR 0x27] @ ''id'' @ [CHR 0x27] @ '')''))"
      by (rule sublist_appendI)
    then have "sublist ''null'' (''Cannot read properties of null (reading '' @ [CHR 0x27] @
        ''id'' @ [CHR 0x27] @ '')'')"
      by simp
    with postToDiffy_null [of rem diff diffyOutput p] assms(1) that show ?thesis
      by blast
  qed
  have noid: "getProperty response ''id'' = Inr None" if "response \<noteq> JNull"
    using that assms(2) getProperty_cases [where obj = response and key = "''id''"] by blast
  have by_error: "fst (postToDiffy rem diff diffyOutput p) =
      (case toString (numberToString rem) v of
         Inl e \<Rightarrow> Inl e | Inr printed \<Rightarrow> Inl (Error printed))"
    if "getProperty response ''error'' = Inr (Some v)" for v
  proof -
    from that have "response \<noteq> JNull" by (auto simp: getProperty_def)
    with noid assms(1) that show ?thesis
      by (cases "toString (numberToString rem) v")
         (simp_all add: postToDiffy_def isCreateDiffResponse_def isApiError_def Let_def)
  qed
  have printed: "fst (postToDiffy rem diff diffyOutput p) = Inl (Error printed)"
    if "getProperty response ''error'' = Inr (Some v)"
      and "toString (numberToString rem) v = Inr printed" for v printed
    using by_error [OF that(1)] that(2) by simp
  have unprintable: "fst (postToDiffy rem diff diffyOutput p) = Inl e"
    if "getProperty response ''error'' = Inr (Some v)"
      and "toString (numberToString rem) v = Inl e" for v e
    using by_error [OF that(1)] that(2) by simp
  have by_message: "fst (postToDiffy rem diff diffyOutput p) = Inl (Error msg)"
    if "getProperty response ''error'' = Inr (Some (JStr msg))" for msg
    using that by (rule printed) simp
  have neither: "fst (postToDiffy rem diff diffyOutput p) =
      Inl (Error (''Could not find '' @ [CHR 0x27] @ ''id'' @ [CHR 0x27] @
             '' of created diff in the response json.\<newline>Body:\<newline>\<newline>'' @
             stringifyPretty rem response))"
    if "getProperty response ''error'' = Inr None"
  proof -
    from that have "response \<noteq> JNull" by (auto simp: getProperty_def)
    with noid assms(1) that show ?thesis
      by (simp add: postToDiffy_def isCreateDiffResponse_def isApiError_def Let_def)
  qed
  have contains: "sublist (stringifyPretty rem response)
      (''Could not find '' @ [CHR 0x27] @ ''id'' @ [CHR 0x27] @
       '' of created diff in the response json.\<newline>Body:\<newline>\<newline>'' @
       stringifyPretty rem response)"
    by (rule suffix_imp_sublist) (simp add: suffix_def)
  have some: "\<exists>e. fst (postToDiffy rem diff diffyOutput p) = Inl e"
    if "getProperty response ''error'' = Inr (Some v)" for v
    using by_error [OF that] by (cases "toString (numberToString rem) v") simp_all
  have thrown: "\<exists>e. fst (postToDiffy rem diff diffyOutput p) = Inl e"
    using null neither some getProperty_cases [where obj = response and key = "''error''"]
    by metis
  from null by_message printed unprintable neither contains thrown show ?thesis
    by (auto simp del: append.simps append_Cons)
qed

theorem postToDiffy_throws_witness:
  "fst (postToDiffy (sample_remote (JObj [(''error'', JStr ''too large'')] :: unit json))
          ''diff --git a/f b/f'' Browser \<lparr>exitCode = None, effects = []\<rparr>) =
     Inl (Error ''too large'') \<and>
   (\<exists>msg. fst (postToDiffy (sample_remote (JObj [] :: unit json))
          ''diff --git a/f b/f'' Browser \<lparr>exitCode = None, effects = []\<rparr>) = Inl (Error msg) \<and>
      sublist ''{}'' msg)"
proof -
  have a: "put (sample_remote r) ''https://diffy.org/api/diff/'' ''diff --git a/f b/f'' = Inr r"
    for r :: "unit json"
    by (simp add: sample_remote_def)
  have b1: "\<forall>v. getProperty (JObj [(''error'', JStr ''too large'')] :: unit json) ''id'' \<noteq>
             Inr (Some v)"
    and b2: "getProperty (JObj [(''error'', JStr ''too large'')] :: unit json) ''error'' =
             Inr (Some (JStr ''too large''))"
    and c1: "\<forall>v. getProperty (JObj [] :: unit json) ''id'' \<noteq> Inr (Some v)"
    and c2: "getProperty (JObj [] :: unit json) ''error'' = Inr None"
    by (simp_all add: getProperty_def)
  have s: "stringifyPretty (sample_remote (JObj [] :: unit json)) (JObj []) = ''{}''"
    by (simp add: sample_remote_def)
  from postToDiffy_throws [OF a b1, of Browser "\<lparr>exitCode = None, effects = []\<rparr>"] b2
  have "fst (postToDiffy (sample_remote (JObj [(''error'', JStr ''too large'')] :: unit json))
          ''diff --git a/f b/f'' Browser \<lparr>exitCode = None, effects = []\<rparr>) =
     Inl (Error ''too large'')"
    by simp
  moreover
  from postToDiffy_throws [OF a c1, of Browser "\<lparr>exitCode = None, effects = []\<rparr>"] c2 s
  have "\<exists>msg. fst (postToDiffy (sample_remote (JObj [] :: unit json))
          ''diff --git a/f b/f'' Browser \<lparr>exitCode = None, effects = []\<rparr>) = Inl (Error msg) \<and>
      sublist ''{}'' msg"
    by auto
  ultimately show ?thesis by simp
qed

section \<open>The substitution of the template compositor\<close>

subsection \<open>replaceExactly on a text whose first occurrence is known\<close>

lemma replaceExactly_absent:
  "\<not> sublist m doc \<Longrightarrow> replaceExactly doc m r = doc"
proof (induction doc)
  case Nil
  then show ?case by auto
next
  case (Cons c cs)
  from Cons.prems have "\<not> prefix m (c # cs)" "\<not> sublist m cs"
    by (auto simp: sublist_Cons_right)
  with Cons.IH show ?case by simp
qed

lemma replaceExactly_first:
  assumes "m \<noteq> []" and "\<not> sublist m (pre @ butlast m)"
  shows "replaceExactly (pre @ m @ post) m r = pre @ r @ post"
  using assms(2)
proof (induction pre)
  case Nil
  from assms(1) obtain c cs where m: "m = c # cs" by (cases m) auto
  show ?case by (simp add: m)
next
  case (Cons p pre)
  from Cons.prems have rest: "\<not> sublist m (pre @ butlast m)"
    and here: "\<not> prefix m (p # pre @ butlast m)"
    by (auto simp: sublist_Cons_right)
  have "\<not> prefix m (p # pre @ m @ post)"
  proof
    assume a: "prefix m (p # pre @ m @ post)"
    have "p # pre @ m @ post = (p # pre @ butlast m) @ (last m # post)"
      using assms(1) by simp
    then have b: "prefix (p # pre @ butlast m) (p # pre @ m @ post)"
      by (metis prefixI)
    have "length m \<le> length (p # pre @ butlast m)"
      using assms(1) by simp
    from prefix_length_prefix [OF a b this] here show False by contradiction
  qed
  with Cons.IH [OF rest] show ?case by simp
qed

subsection \<open>Occurrences next to words that do not overlap\<close>

lemma prefix_append_cases:
  assumes "prefix a (xs @ ys)"
  obtains "prefix a xs" | us where "a = xs @ us" "prefix us ys"
  using assms by (auto simp: prefix_append)

lemma sublist_after_word:
  assumes no: "no_overlap a b" and s: "suffix s b" and occ: "sublist a (s @ ys)"
  shows "sublist a ys"
  using s occ
proof (induction s)
  case Nil
  then show ?case by simp
next
  case (Cons c s)
  from Cons.prems(1) have s': "suffix s b" by (rule suffix_ConsD)
  from Cons.prems(2) consider "prefix a ((c # s) @ ys)" | "sublist a (s @ ys)"
    by (auto simp: sublist_Cons_right)
  then show ?case
  proof cases
    case 1
    then show ?thesis
    proof (cases rule: prefix_append_cases)
      case 1
      then have "sublist a (c # s)" by (rule prefix_imp_sublist)
      moreover have "sublist (c # s) b" using Cons.prems(1) by (rule suffix_imp_sublist)
      ultimately have "sublist a b" by (rule sublist_order.order_trans)
      with no show ?thesis by (simp add: no_overlap_def)
    next
      case (2 us)
      then have "prefix (c # s) a" by (simp add: prefix_def)
      moreover from no have "\<not> prefix (c # s) a"
        using Cons.prems(1) by (simp add: no_overlap_def in_set_suffixes)
      ultimately show ?thesis by contradiction
    qed
  next
    case 2
    with Cons.IH s' show ?thesis by simp
  qed
qed

lemma sublist_around_word:
  assumes no: "no_overlap a b" and occ: "sublist a (xs @ b @ ys)"
  shows "sublist a xs \<or> sublist a ys"
  using occ
proof (induction xs)
  case Nil
  with sublist_after_word [OF no suffix_order.order_refl] show ?case by simp
next
  case (Cons x xs)
  from Cons.prems consider "prefix a ((x # xs) @ (b @ ys))" | "sublist a (xs @ b @ ys)"
    by (auto simp: sublist_Cons_right)
  then show ?case
  proof cases
    case 1
    then show ?thesis
    proof (cases rule: prefix_append_cases)
      case 1
      then show ?thesis by (simp add: prefix_imp_sublist)
    next
      case (2 us)
      note a = \<open>a = (x # xs) @ us\<close>
      from \<open>prefix us (b @ ys)\<close> show ?thesis
      proof (cases rule: prefix_append_cases)
        case 1
        show ?thesis
        proof (cases "us = []")
          case True
          with a show ?thesis by simp
        next
          case False
          have "suffix us a" using a by (simp add: suffix_def)
          with no False have "\<not> prefix us b"
            by (simp add: no_overlap_def in_set_suffixes)
          with 1 show ?thesis by contradiction
        qed
      next
        case (2 vs)
        with a have "a = (x # xs) @ b @ vs" by simp
        then have "sublist b a" unfolding sublist_def by blast
        with no show ?thesis by (simp add: no_overlap_def)
      qed
    qed
  next
    case 2
    with Cons.IH show ?thesis by (auto simp: sublist_Cons_right)
  qed
qed

lemma sublist_before_unbordered:
  assumes ub: "unbordered m" and occ: "sublist m (xs @ butlast m)"
  shows "sublist m xs"
  using occ
proof (induction xs)
  case Nil
  then have "sublist m (butlast m)" by simp
  then have "length m \<le> length (butlast m)" by (rule sublist_length_le)
  moreover from ub have "m \<noteq> []" by (simp add: unbordered_def)
  then have "length (butlast m) < length m" by (cases m) simp_all
  ultimately show ?case by linarith
next
  case (Cons x xs)
  from Cons.prems consider "prefix m ((x # xs) @ butlast m)" | "sublist m (xs @ butlast m)"
    by (auto simp: sublist_Cons_right)
  then show ?case
  proof cases
    case 1
    then show ?thesis
    proof (cases rule: prefix_append_cases)
      case 1
      then show ?thesis by (rule prefix_imp_sublist)
    next
      case (2 us)
      note m = \<open>m = (x # xs) @ us\<close>
      show ?thesis
      proof (cases "us = []")
        case True
        with m show ?thesis by simp
      next
        case False
        from m have "suffix us m" "us \<noteq> m" by (auto simp: suffix_def)
        moreover have "prefix us m"
          using \<open>prefix us (butlast m)\<close> prefixeq_butlast [of m]
          by (rule prefix_order.order_trans)
        ultimately show ?thesis using ub False by (simp add: unbordered_def in_set_suffixes)
      qed
    qed
  next
    case 2
    with Cons.IH show ?thesis by (auto simp: sublist_Cons_right)
  qed
qed

subsection \<open>Rendering with two assignments\<close>

lemma render_append: "render \<sigma> (xs @ ys) = render \<sigma> xs @ render \<sigma> ys"
  by (induction \<sigma> xs rule: render.induct) simp_all

lemma marks_append: "marks (xs @ ys) = marks xs @ marks ys"
  by (induction xs rule: marks.induct) simp_all

lemma render_cong:
  "(\<And>k. k \<in> set (marks segs) \<Longrightarrow> \<sigma> k = \<tau> k) \<Longrightarrow> render \<sigma> segs = render \<tau> segs"
  by (induction segs rule: marks.induct) simp_all

lemma marks_split:
  "m \<in> set (marks segs) \<Longrightarrow> \<exists>before after. segs = before @ Mark m # after \<and> m \<notin> set (marks before)"
proof (induction segs rule: marks.induct)
  case 1
  then show ?case by simp
next
  case (2 s segs)
  then obtain before after where "segs = before @ Mark m # after" "m \<notin> set (marks before)"
    by auto
  then have "Lit s # segs = (Lit s # before) @ Mark m # after \<and> m \<notin> set (marks (Lit s # before))"
    by simp
  then show ?case by blast
next
  case (3 k segs)
  show ?case
  proof (cases "k = m")
    case True
    then have "Mark k # segs = [] @ Mark m # segs \<and> m \<notin> set (marks [])" by simp
    then show ?thesis by blast
  next
    case False
    with 3 obtain before after where "segs = before @ Mark m # after" "m \<notin> set (marks before)"
      by auto
    with False
    have "Mark k # segs = (Mark k # before) @ Mark m # after \<and> m \<notin> set (marks (Mark k # before))"
      by simp
    then show ?thesis by blast
  qed
qed

text \<open>
  Writing a value in the place of a marker that does not overlap \<open>m\<close> cannot remove the
  last occurrence of \<open>m\<close> elsewhere: an occurrence of \<open>m\<close> in the text with markers is an
  occurrence in the text with values.
\<close>

lemma sublist_render_values:
  assumes "\<forall>k \<in> set (marks segs). \<sigma> k = \<tau> k \<or> (\<sigma> k = k \<and> no_overlap m k)"
    and "sublist m (pre @ render \<sigma> segs @ post)"
  shows "sublist m (pre @ render \<tau> segs @ post)"
  using assms
proof (induction segs arbitrary: pre rule: marks.induct)
  case 1
  then show ?case by simp
next
  case (2 s segs)
  from 2(1) [of "pre @ s"] 2(2,3) show ?case by simp
next
  case (3 k segs)
  from 3(2) have rest: "\<forall>k \<in> set (marks segs). \<sigma> k = \<tau> k \<or> (\<sigma> k = k \<and> no_overlap m k)"
    by simp
  from 3(2) consider "\<sigma> k = \<tau> k" | "\<sigma> k = k" "no_overlap m k" by auto
  then show ?case
  proof cases
    case 1
    with 3(1) [OF rest, of "pre @ \<tau> k"] 3(3) show ?thesis by simp
  next
    case 2
    from 3(3) 2(1) have "sublist m (pre @ k @ (render \<sigma> segs @ post))" by simp
    from sublist_around_word [OF 2(2) this]
    show ?thesis
    proof
      assume "sublist m pre"
      then have "sublist m (pre @ (render \<tau> (Mark k # segs) @ post))"
        by (meson sublist_append)
      then show ?thesis .
    next
      assume "sublist m (render \<sigma> segs @ post)"
      with 3(1) [OF rest, of "[]"] have "sublist m (render \<tau> segs @ post)" by simp
      then have "sublist m ((pre @ \<tau> k) @ (render \<tau> segs @ post))"
        by (meson sublist_append)
      then show ?thesis by simp
    qed
  qed
qed

lemma replaceExactly_render_step:
  assumes dm: "distinct (marks segs)"
    and ub: "unbordered m"
    and sm: "\<sigma> m = m"
    and others: "\<forall>k \<in> set (marks segs). k \<noteq> m \<longrightarrow> \<sigma> k = \<tau> k \<or> (\<sigma> k = k \<and> no_overlap m k)"
    and free: "\<not> sublist m (render \<tau> segs)"
    and here: "m \<in> set (marks segs) \<or> post = []"
  shows "replaceExactly (render \<sigma> segs @ post) m r = render (\<sigma>(m := r)) segs @ post"
proof (cases "m \<in> set (marks segs)")
  case False
  with here have post: "post = []" by simp
  from False others
  have "\<forall>k \<in> set (marks segs). \<sigma> k = \<tau> k \<or> (\<sigma> k = k \<and> no_overlap m k)"
    by auto
  from sublist_render_values [OF this, of "[]" "[]"] free
  have "\<not> sublist m (render \<sigma> segs)" by auto
  then have "replaceExactly (render \<sigma> segs) m r = render \<sigma> segs"
    by (rule replaceExactly_absent)
  moreover have "render \<sigma> segs = render (\<sigma>(m := r)) segs"
    using False by (intro render_cong) auto
  ultimately show ?thesis by (simp add: post)
next
  case True
  then obtain before after where segs: "segs = before @ Mark m # after"
    and nb: "m \<notin> set (marks before)"
    using marks_split by blast
  from dm segs have na: "m \<notin> set (marks after)"
    by (simp add: marks_append)
  from ub have ne: "m \<noteq> []" by (simp add: unbordered_def)
  have doc: "render \<sigma> segs @ post = render \<sigma> before @ m @ (render \<sigma> after @ post)"
    by (simp add: segs render_append sm)
  have first: "\<not> sublist m (render \<sigma> before @ butlast m)"
  proof
    assume occ: "sublist m (render \<sigma> before @ butlast m)"
    from others nb segs
    have "\<forall>k \<in> set (marks before). \<sigma> k = \<tau> k \<or> (\<sigma> k = k \<and> no_overlap m k)"
      by (auto simp: marks_append)
    from sublist_render_values [OF this, of "[]" "butlast m"] occ
    have "sublist m (render \<tau> before @ butlast m)" by simp
    with ub have "sublist m (render \<tau> before)" by (rule sublist_before_unbordered)
    then have "sublist m (render \<tau> before @ render \<tau> (Mark m # after))"
      by (meson sublist_append)
    with free show False by (simp add: segs render_append)
  qed
  have replaced: "replaceExactly (render \<sigma> segs @ post) m r =
      render \<sigma> before @ r @ (render \<sigma> after @ post)"
    unfolding doc using ne first by (rule replaceExactly_first)
  have b: "render (\<sigma>(m := r)) before = render \<sigma> before"
    using nb by (intro render_cong) auto
  have a: "render (\<sigma>(m := r)) after = render \<sigma> after"
    using na by (intro render_cong) auto
  have "render (\<sigma>(m := r)) segs @ post = render \<sigma> before @ r @ (render \<sigma> after @ post)"
    by (simp add: segs render_append a b)
  with replaced show ?thesis by simp
qed

lemma substitute_Cons:
  "substitute (r # tab) doc = substitute tab (replaceExactly doc (searchValue r) (replaceValue r))"
  by (simp add: substitute_def)

lemma substitute_render:
  assumes "distinct (map searchValue tab)"
    and "distinct (marks segs)"
    and "\<forall>a \<in> set (map searchValue tab). unbordered a"
    and "\<forall>a \<in> set (map searchValue tab). \<forall>b \<in> set (map searchValue tab). a \<noteq> b \<longrightarrow> no_overlap a b"
    and "\<forall>r \<in> set tab. \<tau> (searchValue r) = replaceValue r"
    and "\<forall>r \<in> set tab. \<sigma> (searchValue r) = searchValue r"
    and "\<forall>k \<in> set (marks segs). k \<notin> set (map searchValue tab) \<longrightarrow> \<sigma> k = \<tau> k"
    and "\<forall>m \<in> set (map searchValue tab). \<not> sublist m (render \<tau> segs)"
    and "set (map searchValue tab) \<subseteq> set (marks segs) \<or> post = []"
  shows "substitute tab (render \<sigma> segs @ post) = render \<tau> segs @ post"
  using assms
proof (induction tab arbitrary: \<sigma>)
  case Nil
  then have "render \<sigma> segs = render \<tau> segs"
    by (intro render_cong) simp
  then show ?case by (simp add: substitute_def)
next
  case (Cons r tab)
  let ?m = "searchValue r"
  from Cons.prems(1) have fresh: "?m \<notin> set (map searchValue tab)"
    and dist: "distinct (map searchValue tab)"
    by simp_all
  have others: "\<forall>k \<in> set (marks segs). k \<noteq> ?m \<longrightarrow> \<sigma> k = \<tau> k \<or> (\<sigma> k = k \<and> no_overlap ?m k)"
  proof (intro ballI impI)
    fix k
    assume k: "k \<in> set (marks segs)" "k \<noteq> ?m"
    show "\<sigma> k = \<tau> k \<or> (\<sigma> k = k \<and> no_overlap ?m k)"
    proof (cases "k \<in> set (map searchValue tab)")
      case True
      then have "\<sigma> k = k" using Cons.prems(6) by auto
      moreover have "no_overlap ?m k" using Cons.prems(4) True k(2) by auto
      ultimately show ?thesis by simp
    next
      case False
      with k Cons.prems(7) show ?thesis by simp
    qed
  qed
  have step: "replaceExactly (render \<sigma> segs @ post) ?m (replaceValue r) =
      render (\<sigma>(?m := replaceValue r)) segs @ post"
    using Cons.prems(2) _ _ others
  proof (rule replaceExactly_render_step)
    show "unbordered ?m" using Cons.prems(3) by simp
    show "\<sigma> ?m = ?m" using Cons.prems(6) by simp
    show "\<not> sublist ?m (render \<tau> segs)" using Cons.prems(8) by simp
    show "?m \<in> set (marks segs) \<or> post = []" using Cons.prems(9) by auto
  qed
  have "substitute tab (render (\<sigma>(?m := replaceValue r)) segs @ post) = render \<tau> segs @ post"
  proof (rule Cons.IH [OF dist Cons.prems(2)])
    show "\<forall>a \<in> set (map searchValue tab). unbordered a" using Cons.prems(3) by simp
    show "\<forall>a \<in> set (map searchValue tab). \<forall>b \<in> set (map searchValue tab). a \<noteq> b \<longrightarrow> no_overlap a b"
      using Cons.prems(4) by simp
    show "\<forall>r \<in> set tab. \<tau> (searchValue r) = replaceValue r" using Cons.prems(5) by simp
    show "\<forall>r' \<in> set tab. (\<sigma>(?m := replaceValue r)) (searchValue r') = searchValue r'"
    proof
      fix r'
      assume r': "r' \<in> set tab"
      then have "searchValue r' \<in> set (map searchValue tab)" by simp
      with fresh have "searchValue r' \<noteq> ?m" by auto
      with Cons.prems(6) r' show "(\<sigma>(?m := replaceValue r)) (searchValue r') = searchValue r'"
        by simp
    qed
    show "\<forall>k \<in> set (marks segs). k \<notin> set (map searchValue tab) \<longrightarrow>
        (\<sigma>(?m := replaceValue r)) k = \<tau> k"
      using Cons.prems(5,7) by auto
    show "\<forall>m \<in> set (map searchValue tab). \<not> sublist m (render \<tau> segs)"
      using Cons.prems(8) by simp
    show "set (map searchValue tab) \<subseteq> set (marks segs) \<or> post = []"
      using Cons.prems(9) by auto
  qed
  with step show ?case by (simp add: substitute_Cons)
qed

lemma valueOf_absent: "m \<notin> set (map searchValue tab) \<Longrightarrow> valueOf tab m = m"
  by (induction tab) auto

lemma valueOf_present:
  "distinct (map searchValue tab) \<Longrightarrow> r \<in> set tab \<Longrightarrow> valueOf tab (searchValue r) = replaceValue r"
  by (induction tab) (auto simp: rev_image_eqI)

lemma substitute_template:
  assumes "distinct (map searchValue tab)"
    and "distinct (marks segs)"
    and "\<forall>a \<in> set (map searchValue tab). unbordered a"
    and "\<forall>a \<in> set (map searchValue tab). \<forall>b \<in> set (map searchValue tab). a \<noteq> b \<longrightarrow> no_overlap a b"
    and "\<forall>m \<in> set (map searchValue tab). \<not> sublist m (render (valueOf tab) segs)"
    and "set (map searchValue tab) \<subseteq> set (marks segs) \<or> post = []"
  shows "substitute tab (render (\<lambda>m. m) segs @ post) = render (valueOf tab) segs @ post"
  using assms(1-4)
proof (rule substitute_render)
  show "\<forall>r \<in> set tab. valueOf tab (searchValue r) = replaceValue r"
    using assms(1) by (simp add: valueOf_present)
  show "\<forall>r \<in> set tab. searchValue r = searchValue r" by simp
  show "\<forall>k \<in> set (marks segs). k \<notin> set (map searchValue tab) \<longrightarrow> k = valueOf tab k"
    by (simp add: valueOf_absent)
  show "\<forall>m \<in> set (map searchValue tab). \<not> sublist m (render (valueOf tab) segs)"
    by (rule assms(5))
  show "set (map searchValue tab) \<subseteq> set (marks segs) \<or> post = []"
    by (rule assms(6))
qed

subsection \<open>The ten markers\<close>

lemma searchValue_replacements:
  "map searchValue (replacements diffHTMLContent config scheme cssContent jsUiContent) = markers"
  by (simp add: replacements_def markers_def)

lemma distinct_markers: "distinct markers"
  by (simp add: markers_def)

subsection \<open>A cheap test for words that do not overlap\<close>

text \<open>
  When the first two characters of \<open>b\<close> occur nowhere in \<open>a\<close> after its first character and
  the last character of \<open>a\<close> is not the first of \<open>b\<close>, the only end of \<open>a\<close> that can begin
  \<open>b\<close> is \<open>a\<close> itself.
\<close>

lemma suffix_not_prefix_by_heads:
  assumes len: "2 \<le> length b"
    and heads: "\<not> sublist (take 2 b) (tl a)"
    and ends: "last a \<noteq> hd b"
    and s: "suffix s a" "s \<noteq> []" "s \<noteq> a"
  shows "\<not> prefix s b"
proof
  assume p: "prefix s b"
  from s(1,3) have tl: "suffix s (tl a)"
    by (cases a) (auto simp: suffix_Cons)
  show False
  proof (cases "2 \<le> length s")
    case True
    with p have "take 2 b = take 2 s"
      by (auto simp: prefix_def)
    moreover have "sublist (take 2 s) s" by simp
    moreover from tl have "sublist s (tl a)" by (rule suffix_imp_sublist)
    ultimately have "sublist (take 2 b) (tl a)"
      using sublist_order.order_trans by metis
    with heads show False by contradiction
  next
    case False
    with s(2) obtain c where c: "s = [c]"
      by (cases s) (auto simp: Suc_le_eq)
    with s(1) have "last a = c" by (auto simp: suffix_def)
    moreover from p c len have "hd b = c" by (cases b) (auto simp: prefix_def)
    ultimately show False using ends by simp
  qed
qed

lemma not_sublist_by_heads:
  assumes "\<not> prefix a b" and "\<not> sublist (take 2 a) (tl b)"
  shows "\<not> sublist a b"
proof
  assume occ: "sublist a b"
  with assms(1) have "sublist a (tl b)"
    by (cases b) (auto simp: sublist_Cons_right)
  moreover have "sublist (take 2 a) a" by simp
  ultimately have "sublist (take 2 a) (tl b)"
    using sublist_order.order_trans by metis
  with assms(2) show False by contradiction
qed

lemma no_overlap_by_heads:
  assumes "2 \<le> length a" "2 \<le> length b"
    and "\<not> sublist (take 2 b) (tl a)" "\<not> sublist (take 2 a) (tl b)"
    and "last a \<noteq> hd b" "last b \<noteq> hd a"
    and "\<not> prefix a b" "\<not> prefix b a"
  shows "no_overlap a b"
  unfolding no_overlap_def
proof (intro conjI ballI impI)
  show "\<not> sublist a b" using assms(7,4) by (rule not_sublist_by_heads)
  show "\<not> sublist b a" using assms(8,3) by (rule not_sublist_by_heads)
next
  fix s
  assume s: "s \<in> set (suffixes a)" "s \<noteq> []"
  show "\<not> prefix s b"
  proof (cases "s = a")
    case True
    with assms(7) show ?thesis by simp
  next
    case False
    with s show ?thesis
      using suffix_not_prefix_by_heads [OF assms(2,3,5)] by (simp add: in_set_suffixes)
  qed
next
  fix s
  assume s: "s \<in> set (suffixes b)" "s \<noteq> []"
  show "\<not> prefix s a"
  proof (cases "s = b")
    case True
    with assms(8) show ?thesis by simp
  next
    case False
    with s show ?thesis
      using suffix_not_prefix_by_heads [OF assms(1,4,6)] by (simp add: in_set_suffixes)
  qed
qed

lemma unbordered_by_heads:
  assumes "2 \<le> length a" "\<not> sublist (take 2 a) (tl a)" "last a \<noteq> hd a"
  shows "unbordered a"
  unfolding unbordered_def
proof (intro conjI ballI impI)
  from assms(1) show "a \<noteq> []" by auto
next
  fix s
  assume "s \<in> set (suffixes a)" "s \<noteq> [] \<and> s \<noteq> a"
  then show "\<not> prefix s a"
    using suffix_not_prefix_by_heads [OF assms] by (simp add: in_set_suffixes)
qed

lemma unbordered_markers: "\<forall>a \<in> set markers. unbordered a"
  unfolding markers_def
  by (simp add: unbordered_by_heads sublist_code)

lemma no_overlap_markers: "\<forall>a \<in> set markers. \<forall>b \<in> set markers. a \<noteq> b \<longrightarrow> no_overlap a b"
  unfolding markers_def
  by (simp add: no_overlap_by_heads sublist_code)

subsection \<open>Filling a template\<close>

lemma prepareHTML_template_with_tail:
  assumes template: "readFile ext (htmlWrapperTemplate config) = Inr (render (\<lambda>m. m) segs @ post)"
    and css: "readFile ext (cssFilePath ext) = Inr cssContent"
    and js: "readFile ext (jsUiFilePath ext) = Inr jsUiContent"
    and once: "distinct (marks segs)"
    and free: "\<forall>m \<in> set markers. \<not> sublist m
      (render (valueOf (replacements diffHTMLContent config scheme cssContent jsUiContent)) segs)"
    and present: "set markers \<subseteq> set (marks segs) \<or> post = []"
  shows "prepareHTML ext diffHTMLContent config scheme =
      Inr (render (valueOf (replacements diffHTMLContent config scheme cssContent jsUiContent)) segs
           @ post)"
proof -
  let ?table = "replacements diffHTMLContent config scheme cssContent jsUiContent"
  have keys: "map searchValue ?table = markers" by (rule searchValue_replacements)
  have dist: "distinct (map searchValue ?table)"
    unfolding keys by (rule distinct_markers)
  have "substitute ?table (render (\<lambda>m. m) segs @ post) = render (valueOf ?table) segs @ post"
    using dist once
  proof (rule substitute_template)
    show "\<forall>a \<in> set (map searchValue ?table). unbordered a"
      unfolding keys by (rule unbordered_markers)
    show "\<forall>a \<in> set (map searchValue ?table). \<forall>b \<in> set (map searchValue ?table).
        a \<noteq> b \<longrightarrow> no_overlap a b"
      unfolding keys by (rule no_overlap_markers)
    show "\<forall>m \<in> set (map searchValue ?table). \<not> sublist m (render (valueOf ?table) segs)"
      unfolding keys by (rule free)
    show "set (map searchValue ?table) \<subseteq> set (marks segs) \<or> post = []"
      unfolding keys by (rule present)
  qed
  then show ?thesis
    by (simp add: prepareHTML_def template css js)
qed

lemma sublist_render_mark: "m \<in> set (marks segs) \<Longrightarrow> sublist (\<sigma> m) (render \<sigma> segs)"
proof -
  assume "m \<in> set (marks segs)"
  then obtain before after where "segs = before @ Mark m # after"
    using marks_split by blast
  then have "render \<sigma> segs = render \<sigma> before @ \<sigma> m @ render \<sigma> after"
    by (simp add: render_append)
  then show ?thesis by simp
qed

subsection \<open>The table after its first rule\<close>

lemma replacements_Cons:
  "replacements diffHTMLContent config scheme cssContent jsUiContent =
    \<lparr>searchValue = ''<!--diff2html-title-->'', replaceValue = pageTitle config\<rparr> #
    tl (replacements diffHTMLContent config scheme cssContent jsUiContent)"
  by (simp add: replacements_def)

lemma searchValue_tl_replacements:
  "map searchValue (tl (replacements diffHTMLContent config scheme cssContent jsUiContent)) =
    tl markers"
  by (simp add: replacements_def markers_def)

lemma tl_markers: "set (tl markers) \<subseteq> set markers" "distinct (tl markers)"
  by (simp_all add: markers_def)

lemma prepareHTML_after_title:
  assumes "readFile ext (htmlWrapperTemplate config) = Inr template"
    and "readFile ext (cssFilePath ext) = Inr cssContent"
    and "readFile ext (jsUiFilePath ext) = Inr jsUiContent"
  shows "prepareHTML ext diffHTMLContent config scheme =
    Inr (substitute (tl (replacements diffHTMLContent config scheme cssContent jsUiContent))
          (replaceExactly template ''<!--diff2html-title-->'' (pageTitle config)))"
proof -
  have "substitute (replacements diffHTMLContent config scheme cssContent jsUiContent) template =
      substitute (tl (replacements diffHTMLContent config scheme cssContent jsUiContent))
        (replaceExactly template ''<!--diff2html-title-->'' (pageTitle config))"
    by (subst replacements_Cons) (simp add: substitute_Cons)
  with assms show ?thesis by (simp add: prepareHTML_def)
qed

text \<open>
  The rules after the first, run over a text whose markers stand once each in \<open>segs\<close> and
  whose tail \<open>post\<close> no rule reaches.
\<close>

lemma substitute_tl_replacements:
  assumes once: "distinct (marks segs)"
    and free: "\<forall>m \<in> set (tl markers). \<not> sublist m
      (render (valueOf (tl (replacements diffHTMLContent config scheme cssContent jsUiContent))) segs)"
    and present: "set (tl markers) \<subseteq> set (marks segs)"
  shows "substitute (tl (replacements diffHTMLContent config scheme cssContent jsUiContent))
      (render (\<lambda>m. m) segs @ post) =
    render (valueOf (tl (replacements diffHTMLContent config scheme cssContent jsUiContent))) segs
      @ post"
proof -
  let ?table = "tl (replacements diffHTMLContent config scheme cssContent jsUiContent)"
  have keys: "map searchValue ?table = tl markers" by (rule searchValue_tl_replacements)
  have dist: "distinct (map searchValue ?table)"
    unfolding keys by (rule tl_markers)
  show ?thesis
    using dist once
  proof (rule substitute_template)
    show "\<forall>a \<in> set (map searchValue ?table). unbordered a"
      unfolding keys using unbordered_markers tl_markers(1) by blast
    show "\<forall>a \<in> set (map searchValue ?table). \<forall>b \<in> set (map searchValue ?table).
        a \<noteq> b \<longrightarrow> no_overlap a b"
      unfolding keys using no_overlap_markers tl_markers(1) by blast
    show "\<forall>m \<in> set (map searchValue ?table). \<not> sublist m (render (valueOf ?table) segs)"
      unfolding keys by (rule free)
    show "set (map searchValue ?table) \<subseteq> set (marks segs) \<or> post = []"
      unfolding keys using present by simp
  qed
qed

subsection \<open>Plain texts\<close>

lemma plain_Nil: "plain []"
  by (auto simp: plain_def marker_openings_def)

lemma plain_append:
  assumes p: "plain p" and q: "plain q"
  shows "plain (p @ q)"
  unfolding plain_def
proof (intro ballI conjI impI)
  fix a
  assume a: "a \<in> set marker_openings"
  from p a have pa: "\<not> sublist a p" and pu: "\<And>u. prefix u a \<Longrightarrow> u \<noteq> [] \<Longrightarrow> \<not> suffix u p"
    by (auto simp: plain_def in_set_prefixes)
  from q a have qa: "\<not> sublist a q" and qu: "\<And>u. prefix u a \<Longrightarrow> u \<noteq> [] \<Longrightarrow> \<not> suffix u q"
    by (auto simp: plain_def in_set_prefixes)
  show "\<not> sublist a (p @ q)"
  proof
    assume "sublist a (p @ q)"
    then consider "sublist a p" | "sublist a q"
      | xs1 xs2 where "a = xs1 @ xs2" "suffix xs1 p" "prefix xs2 q"
      by (auto simp: sublist_append)
    then show False
    proof cases
      case 1
      with pa show False by contradiction
    next
      case 2
      with qa show False by contradiction
    next
      case (3 xs1 xs2)
      show False
      proof (cases "xs1 = []")
        case True
        with 3 have "sublist a q" by simp
        with qa show False by contradiction
      next
        case False
        from 3(1) have "prefix xs1 a" by simp
        from pu [OF this False] 3(2) show False by contradiction
      qed
    qed
  qed
  fix u
  assume u: "u \<in> set (prefixes a)" "u \<noteq> []"
  then have ua: "prefix u a" by (simp add: in_set_prefixes)
  show "\<not> suffix u (p @ q)"
  proof
    assume "suffix u (p @ q)"
    then consider "suffix u q" | u' where "u = u' @ q" "suffix u' p"
      by (auto simp: suffix_append)
    then show False
    proof cases
      case 1
      with qu [OF ua u(2)] show False by contradiction
    next
      case (2 u')
      show False
      proof (cases "u' = []")
        case True
        with 2 have "suffix u q" by simp
        with qu [OF ua u(2)] show False by contradiction
      next
        case False
        from 2(1) ua have "prefix u' a" by (metis append_prefixD)
        from pu [OF this False] 2(2) show False by contradiction
      qed
    qed
  qed
qed

lemma plain_render:
  assumes "\<forall>s \<in> set (lits segs). plain s"
    and "\<forall>m \<in> set (marks segs). plain (\<sigma> m)"
  shows "plain (render \<sigma> segs)"
  using assms
  by (induction segs rule: marks.induct) (auto intro: plain_append plain_Nil)

lemma markers_openings: "\<forall>m \<in> set markers. \<exists>a \<in> set marker_openings. prefix a m"
  by (simp add: markers_def marker_openings_def)

lemma plain_free:
  assumes "plain text"
  shows "\<forall>m \<in> set markers. \<not> sublist m text"
proof
  fix m
  assume "m \<in> set markers"
  with markers_openings obtain a where a: "a \<in> set marker_openings" "prefix a m" by blast
  from a(2) have "sublist a m" by (rule prefix_imp_sublist)
  moreover from assms a(1) have "\<not> sublist a text" by (simp add: plain_def)
  ultimately show "\<not> sublist m text"
    using sublist_order.order_trans by blast
qed

section \<open>The page the template compositor returns\<close>

text \<open>
  C1, amended. Take a template made of literal fragments and markers in which no marker
  stands twice. If no fragment and no replacement value of a marker of the template
  contains the opening of a marker (\<open><!--diff2html-\<close> or \<open>//diff2html-\<close>) or ends with a
  beginning of one, then \<open>prepareHTML\<close> returns the template with each marker exchanged for
  its replacement value: the page contains none of the ten marker literals, and in the
  place of every marker of the template it has that marker's replacement value verbatim,
  whatever other characters the value has (\<open>$&\<close>, \<open>$1\<close>); no rule matched inside a
  replacement value. The same page is returned, more generally, whenever the template with
  each marker exchanged for its value contains no marker literal.
\<close>

theorem prepareHTML_fills_template:
  assumes template: "readFile ext (htmlWrapperTemplate config) = Inr (render (\<lambda>m. m) segs)"
    and css: "readFile ext (cssFilePath ext) = Inr cssContent"
    and js: "readFile ext (jsUiFilePath ext) = Inr jsUiContent"
    and once: "distinct (marks segs)"
  shows
   "((\<forall>s \<in> set (lits segs). plain s) \<and>
     (\<forall>m \<in> set (marks segs).
        plain (valueOf (replacements diffHTMLContent config scheme cssContent jsUiContent) m)) \<longrightarrow>
     (\<exists>out. prepareHTML ext diffHTMLContent config scheme = Inr out \<and>
        out = render (valueOf (replacements diffHTMLContent config scheme cssContent jsUiContent)) segs \<and>
        (\<forall>m \<in> set markers. \<not> sublist m out) \<and>
        (\<forall>r \<in> set (replacements diffHTMLContent config scheme cssContent jsUiContent).
           \<forall>before after. segs = before @ Mark (searchValue r) # after \<longrightarrow>
             sublist (replaceValue r) out \<and>
             out = render (valueOf (replacements diffHTMLContent config scheme cssContent jsUiContent)) before
                   @ replaceValue r @
                   render (valueOf (replacements diffHTMLContent config scheme cssContent jsUiContent)) after))) \<and>
    ((\<forall>m \<in> set markers. \<not> sublist m
        (render (valueOf (replacements diffHTMLContent config scheme cssContent jsUiContent)) segs)) \<longrightarrow>
     (\<exists>out. prepareHTML ext diffHTMLContent config scheme = Inr out \<and>
        out = render (valueOf (replacements diffHTMLContent config scheme cssContent jsUiContent)) segs \<and>
        (\<forall>r \<in> set (replacements diffHTMLContent config scheme cssContent jsUiContent).
           \<forall>before after. segs = before @ Mark (searchValue r) # after \<longrightarrow>
             sublist (replaceValue r) out \<and>
             out = render (valueOf (replacements diffHTMLContent config scheme cssContent jsUiContent)) before
                   @ replaceValue r @
                   render (valueOf (replacements diffHTMLContent config scheme cssContent jsUiContent)) after)))"
proof -
  let ?table = "replacements diffHTMLContent config scheme cssContent jsUiContent"
  let ?out = "render (valueOf ?table) segs"
  have keys: "map searchValue ?table = markers" by (rule searchValue_replacements)
  have dist: "distinct (map searchValue ?table)"
    unfolding keys by (rule distinct_markers)
  have text0: "readFile ext (htmlWrapperTemplate config) = Inr (render (\<lambda>m. m) segs @ [])"
    using template by simp
  have result: "prepareHTML ext diffHTMLContent config scheme = Inr ?out"
    if "\<forall>m \<in> set markers. \<not> sublist m ?out"
    using prepareHTML_template_with_tail [OF text0 css js once that] by simp
  have place: "sublist (replaceValue r) ?out \<and>
      ?out = render (valueOf ?table) before @ replaceValue r @ render (valueOf ?table) after"
    if r: "r \<in> set ?table" and segs: "segs = before @ Mark (searchValue r) # after"
    for r before after
  proof -
    have "?out = render (valueOf ?table) before @ valueOf ?table (searchValue r) @
        render (valueOf ?table) after"
      by (simp add: segs render_append)
    with valueOf_present [OF dist r]
    have eq: "?out = render (valueOf ?table) before @ replaceValue r @
        render (valueOf ?table) after"
      by simp
    have "sublist (replaceValue r)
        (render (valueOf ?table) before @ replaceValue r @ render (valueOf ?table) after)"
      by (rule sublist_appendI)
    with eq show ?thesis by simp
  qed
  have free: "\<forall>m \<in> set markers. \<not> sublist m ?out"
    if "(\<forall>s \<in> set (lits segs). plain s) \<and> (\<forall>m \<in> set (marks segs). plain (valueOf ?table m))"
  proof (rule plain_free)
    from that show "plain ?out" by (intro plain_render) simp_all
  qed
  show ?thesis
  proof (intro conjI impI)
    assume "(\<forall>s \<in> set (lits segs). plain s) \<and>
      (\<forall>m \<in> set (marks segs). plain (valueOf ?table m))"
    then have f: "\<forall>m \<in> set markers. \<not> sublist m ?out" by (rule free)
    from result [OF f] f place
    show "\<exists>out. prepareHTML ext diffHTMLContent config scheme = Inr out \<and>
        out = ?out \<and> (\<forall>m \<in> set markers. \<not> sublist m out) \<and>
        (\<forall>r \<in> set ?table. \<forall>before after. segs = before @ Mark (searchValue r) # after \<longrightarrow>
             sublist (replaceValue r) out \<and>
             out = render (valueOf ?table) before @ replaceValue r @
                   render (valueOf ?table) after)"
      by blast
  next
    assume f: "\<forall>m \<in> set markers. \<not> sublist m ?out"
    from result [OF f] place
    show "\<exists>out. prepareHTML ext diffHTMLContent config scheme = Inr out \<and>
        out = ?out \<and>
        (\<forall>r \<in> set ?table. \<forall>before after. segs = before @ Mark (searchValue r) # after \<longrightarrow>
             sublist (replaceValue r) out \<and>
             out = render (valueOf ?table) before @ replaceValue r @
                   render (valueOf ?table) after)"
      by blast
  qed
qed

lemma markers_infix: "\<forall>m \<in> set markers. sublist ''diff2html-'' m"
  by (simp add: markers_def sublist_code)

lemma free_by_infix:
  assumes "\<not> sublist ''diff2html-'' text" and "set ms \<subseteq> set markers"
  shows "\<forall>m \<in> set ms. \<not> sublist m text"
proof
  fix m
  assume "m \<in> set ms"
  with assms(2) markers_infix have "sublist ''diff2html-'' m" by blast
  with assms(1) show "\<not> sublist m text"
    using sublist_order.order_trans by blast
qed

lemma sample_reads:
  "readFile (sample_assets template) (htmlWrapperTemplate sample_config) = Inr template"
  "readFile (sample_assets template) (cssFilePath (sample_assets template)) = Inr ''.d2h{}''"
  "readFile (sample_assets template) (jsUiFilePath (sample_assets template)) = Inr ''var d2h;''"
  by (simp_all add: sample_assets_def sample_files_def sample_config_def)

lemma sample_filled:
  "render (valueOf (replacements ''<div class=d2h></div>'' sample_config (Some Light)
             ''.d2h{}'' ''var d2h;'')) sample_template =
   sample_page ''Diff to HTML'' ''Diff''"
  by (simp add: sample_page_def sample_template_def sample_front_def sample_config_def
      replacements_def baseStyle_def gitHubTheme_def string_of_bool_def)

lemma sample_scan: "\<not> sublist ''diff2html-'' (sample_page ''Diff to HTML'' ''Diff'')"
  by code_simp

lemma sample_free:
  "\<forall>m \<in> set markers. \<not> sublist m
     (render (valueOf (replacements ''<div class=d2h></div>'' sample_config (Some Light)
                ''.d2h{}'' ''var d2h;'')) sample_template)"
  unfolding sample_filled using sample_scan by (rule free_by_infix) simp

lemma sample_page_header: "sublist shownHeader (sample_page shownTitle shownHeader)"
  by (simp add: sample_page_def sublist_Cons_right sublist_append)

lemma sample_once: "distinct (marks sample_template)"
  by (simp add: sample_template_def sample_front_def)

lemma sample_plain:
  "list_all plain (lits sample_template)"
  "list_all (\<lambda>m. plain (valueOf (replacements ''<div class=d2h></div>'' sample_config
       (Some Light) ''.d2h{}'' ''var d2h;'') m)) (marks sample_template)"
  by code_simp+

theorem prepareHTML_fills_template_witness:
  "prepareHTML (sample_assets (render (\<lambda>m. m) sample_template)) ''<div class=d2h></div>''
     sample_config (Some Light) =
   Inr (sample_page ''Diff to HTML'' ''Diff'') \<and>
   sublist ''<p>fix: $& and $1</p>'' (sample_page ''Diff to HTML'' ''Diff'') \<and>
   list_all (\<lambda>m. \<not> sublist m (sample_page ''Diff to HTML'' ''Diff'')) markers"
proof -
  have message: "sublist ''<p>fix: $& and $1</p>'' (sample_page ''Diff to HTML'' ''Diff'')"
    by code_simp
  note filled = prepareHTML_fills_template [OF sample_reads sample_once,
      of "''<div class=d2h></div>''" "Some Light"]
  have "\<exists>out. prepareHTML (sample_assets (render (\<lambda>m. m) sample_template))
        ''<div class=d2h></div>'' sample_config (Some Light) = Inr out \<and>
      out = sample_page ''Diff to HTML'' ''Diff'' \<and> (\<forall>m \<in> set markers. \<not> sublist m out)"
    using filled [THEN conjunct1] sample_plain
    by (auto simp only: sample_filled list_all_iff)
  moreover have "\<exists>out. prepareHTML (sample_assets (render (\<lambda>m. m) sample_template))
        ''<div class=d2h></div>'' sample_config (Some Light) = Inr out \<and>
      out = sample_page ''Diff to HTML'' ''Diff''"
    using filled [THEN conjunct2] sample_free
    by (auto simp only: sample_filled)
  ultimately show ?thesis
    using message by (auto simp only: list_all_iff)
qed

text \<open>
  C1 as stated fails, in two ways. A rule replaces one occurrence of its marker: a
  template that has all ten markers and the title marker a second time keeps the second
  one. And a rule matches wherever its marker's text stands first: when the page title is
  the text of the header marker, the header rule replaces the title just written, so the
  title shows the header text and the header marker is left in the page. The template of
  both has all ten markers.
\<close>

theorem prepareHTML_marker_left_over:
  "list_all (\<lambda>m. sublist m (render (\<lambda>m. m) sample_template)) markers \<and>
   prepareHTML (sample_assets (render (\<lambda>m. m) sample_template @ ''<!--diff2html-title-->''))
     ''<div class=d2h></div>'' sample_config (Some Light) =
     Inr (sample_page ''Diff to HTML'' ''Diff'' @ ''<!--diff2html-title-->'') \<and>
   sublist ''<!--diff2html-title-->'' (sample_page ''Diff to HTML'' ''Diff'' @ ''<!--diff2html-title-->'') \<and>
   prepareHTML (sample_assets (render (\<lambda>m. m) sample_template))
     ''<div class=d2h></div>'' (sample_config\<lparr>pageTitle := ''<!--diff2html-header-->''\<rparr>)
     (Some Light) =
     Inr (sample_page ''Diff'' ''<!--diff2html-header-->'') \<and>
   sublist ''<!--diff2html-header-->'' (sample_page ''Diff'' ''<!--diff2html-header-->'')"
proof (intro conjI)
  have all: "set markers \<subseteq> set (marks sample_template)"
    by (simp add: sample_template_def sample_front_def markers_def)
  show "list_all (\<lambda>m. sublist m (render (\<lambda>m. m) sample_template)) markers"
    unfolding list_all_iff
  proof
    fix m
    assume "m \<in> set markers"
    with all have "m \<in> set (marks sample_template)" by blast
    then show "sublist m (render (\<lambda>m. m) sample_template)"
      by (rule sublist_render_mark [where \<sigma> = "\<lambda>m. m"])
  qed
  have "prepareHTML (sample_assets (render (\<lambda>m. m) sample_template @ ''<!--diff2html-title-->''))
      ''<div class=d2h></div>'' sample_config (Some Light) =
    Inr (render (valueOf (replacements ''<div class=d2h></div>'' sample_config (Some Light)
             ''.d2h{}'' ''var d2h;'')) sample_template @ ''<!--diff2html-title-->'')"
    using sample_reads sample_once sample_free
  proof (rule prepareHTML_template_with_tail)
    show "set markers \<subseteq> set (marks sample_template) \<or> ''<!--diff2html-title-->'' = []"
      using all by simp
  qed
  then show "prepareHTML (sample_assets (render (\<lambda>m. m) sample_template @ ''<!--diff2html-title-->''))
     ''<div class=d2h></div>'' sample_config (Some Light) =
     Inr (sample_page ''Diff to HTML'' ''Diff'' @ ''<!--diff2html-title-->'')"
    by (simp only: sample_filled)
  show "sublist ''<!--diff2html-title-->''
      (sample_page ''Diff to HTML'' ''Diff'' @ ''<!--diff2html-title-->'')"
    by (rule sublist_append_leftI)
next
  let ?config = "sample_config\<lparr>pageTitle := ''<!--diff2html-header-->''\<rparr>"
  let ?rest = "tl (replacements ''<div class=d2h></div>'' ?config (Some Light)
                 ''.d2h{}'' ''var d2h;'')"
  let ?front = "sample_front ''<!--diff2html-header-->''"
  let ?tail = "''<!--diff2html-header-->'' @ ''</h1></body></html>''"
  have reads:
    "readFile (sample_assets (render (\<lambda>m. m) sample_template)) (htmlWrapperTemplate ?config) =
      Inr (render (\<lambda>m. m) sample_template)"
    "readFile (sample_assets (render (\<lambda>m. m) sample_template))
      (cssFilePath (sample_assets (render (\<lambda>m. m) sample_template))) = Inr ''.d2h{}''"
    "readFile (sample_assets (render (\<lambda>m. m) sample_template))
      (jsUiFilePath (sample_assets (render (\<lambda>m. m) sample_template))) = Inr ''var d2h;''"
    using sample_reads [of "render (\<lambda>m. m) sample_template"]
    by (simp_all add: sample_config_def)
  have title: "pageTitle ?config = ''<!--diff2html-header-->''" by simp
  have split: "render (\<lambda>m. m) sample_template =
      ''<html><head><title>'' @ ''<!--diff2html-title-->'' @
      drop 41 (render (\<lambda>m. m) sample_template)"
    by (simp add: sample_template_def sample_front_def)
  have first: "\<not> sublist ''<!--diff2html-title-->''
      (''<html><head><title>'' @ butlast ''<!--diff2html-title-->'')"
    by (simp add: sublist_code)
  have "replaceExactly (render (\<lambda>m. m) sample_template) ''<!--diff2html-title-->''
      ''<!--diff2html-header-->'' =
    ''<html><head><title>'' @ ''<!--diff2html-header-->'' @
      drop 41 (render (\<lambda>m. m) sample_template)"
    by (subst split, rule replaceExactly_first [OF _ first]) simp
  also have "\<dots> = render (\<lambda>m. m) ?front @ ?tail"
    by (simp add: sample_template_def sample_front_def)
  finally have written: "replaceExactly (render (\<lambda>m. m) sample_template)
      ''<!--diff2html-title-->'' ''<!--diff2html-header-->'' = render (\<lambda>m. m) ?front @ ?tail" .
  have filled: "render (valueOf ?rest) ?front @ ?tail = sample_page ''Diff'' ''<!--diff2html-header-->''"
    by (simp add: sample_page_def sample_front_def sample_config_def replacements_def
        baseStyle_def gitHubTheme_def string_of_bool_def)
  have scan: "\<not> sublist ''diff2html-'' (render (valueOf ?rest) ?front)"
    by code_simp
  have "substitute ?rest (render (\<lambda>m. m) ?front @ ?tail) = render (valueOf ?rest) ?front @ ?tail"
  proof (rule substitute_tl_replacements)
    show "distinct (marks ?front)" by (simp add: sample_front_def)
    show "\<forall>m \<in> set (tl markers). \<not> sublist m (render (valueOf ?rest) ?front)"
      using scan tl_markers(1) by (rule free_by_infix)
    show "set (tl markers) \<subseteq> set (marks ?front)"
      by (simp add: sample_front_def markers_def)
  qed
  with prepareHTML_after_title [OF reads, of "''<div class=d2h></div>''" "Some Light"]
  show "prepareHTML (sample_assets (render (\<lambda>m. m) sample_template))
     ''<div class=d2h></div>'' ?config (Some Light) =
     Inr (sample_page ''Diff'' ''<!--diff2html-header-->'')"
    by (simp only: title written filled)
  show "sublist ''<!--diff2html-header-->'' (sample_page ''Diff'' ''<!--diff2html-header-->'')"
    by (rule sample_page_header)
qed

lemma prepareHTML_at_marker:
  assumes "readFile ext (htmlWrapperTemplate config) =
      Inr (render (\<lambda>m. m) (before @ Mark m # after))"
    and "readFile ext (cssFilePath ext) = Inr cssContent"
    and "readFile ext (jsUiFilePath ext) = Inr jsUiContent"
    and "distinct (marks (before @ Mark m # after))"
    and "\<forall>k \<in> set markers. \<not> sublist k
      (render (valueOf (replacements diffHTMLContent config scheme cssContent jsUiContent))
         (before @ Mark m # after))"
  shows "prepareHTML ext diffHTMLContent config scheme =
    Inr (render (valueOf (replacements diffHTMLContent config scheme cssContent jsUiContent)) before @
         valueOf (replacements diffHTMLContent config scheme cssContent jsUiContent) m @
         render (valueOf (replacements diffHTMLContent config scheme cssContent jsUiContent)) after)"
proof -
  have "readFile ext (htmlWrapperTemplate config) =
      Inr (render (\<lambda>m. m) (before @ Mark m # after) @ [])"
    using assms(1) by simp
  from prepareHTML_template_with_tail [OF this assms(2-5)]
  show ?thesis by (simp add: render_append)
qed


lemma valueOf_css_marker:
  "valueOf (replacements diffHTMLContent config scheme cssContent jsUiContent)
     ''<!--diff2html-css-->'' =
   baseStyle scheme @ ''\<newline>'' @ gitHubTheme scheme @ ''\<newline><style>\<newline>'' @ cssContent @
   ''\<newline></style>''"
  by (simp add: replacements_def)

section \<open>The theme of the page\<close>

text \<open>
  C8. With the colour scheme unset, \<open>prepareHTML\<close> picks the auto theme links and the auto
  base style, the fragments an explicit \<open>auto\<close> picks, and the stylesheet entry of the table
  carries them. The function gives what it gives for \<open>auto\<close> and throws exactly when one of
  its three file reads does. What it returns is the template run through that table. And
  the fragments reach the page: where the stylesheet marker
  stands in a template whose markers stand once each and whose filled text has no marker
  literal, the page has the auto base style, the auto theme links and the stylesheet
  bundle, in that order, between what comes before and what comes after.
\<close>

theorem prepareHTML_unset_colorScheme:
  "gitHubTheme None = autoGitHubTheme \<and> baseStyle None = autoBaseStyle \<and>
   gitHubTheme None = gitHubTheme (Some Auto) \<and> baseStyle None = baseStyle (Some Auto) \<and>
   replaceValue (replacements diffHTMLContent config None cssContent jsUiContent ! 1) =
     autoBaseStyle @ ''\<newline>'' @ autoGitHubTheme @ ''\<newline><style>\<newline>'' @ cssContent @
     ''\<newline></style>'' \<and>
   prepareHTML ext diffHTMLContent config None = prepareHTML ext diffHTMLContent config (Some Auto) \<and>
   isl (prepareHTML ext diffHTMLContent config None) =
     (isl (readFile ext (htmlWrapperTemplate config)) \<or> isl (readFile ext (cssFilePath ext)) \<or>
      isl (readFile ext (jsUiFilePath ext))) \<and>
   (readFile ext (htmlWrapperTemplate config) = Inr template \<and>
    readFile ext (cssFilePath ext) = Inr cssContent \<and>
    readFile ext (jsUiFilePath ext) = Inr jsUiContent \<longrightarrow>
    prepareHTML ext diffHTMLContent config None =
      Inr (substitute (replacements diffHTMLContent config None cssContent jsUiContent) template)) \<and>
   (readFile ext (htmlWrapperTemplate config) =
      Inr (render (\<lambda>m. m) (before @ Mark ''<!--diff2html-css-->'' # after)) \<and>
    readFile ext (cssFilePath ext) = Inr cssContent \<and>
    readFile ext (jsUiFilePath ext) = Inr jsUiContent \<and>
    distinct (marks (before @ Mark ''<!--diff2html-css-->'' # after)) \<and>
    (\<forall>k \<in> set markers. \<not> sublist k
       (render (valueOf (replacements diffHTMLContent config None cssContent jsUiContent))
          (before @ Mark ''<!--diff2html-css-->'' # after))) \<longrightarrow>
    prepareHTML ext diffHTMLContent config None =
      Inr (render (valueOf (replacements diffHTMLContent config None cssContent jsUiContent)) before @
           autoBaseStyle @ ''\<newline>'' @ autoGitHubTheme @ ''\<newline><style>\<newline>'' @ cssContent @
           ''\<newline></style>'' @
           render (valueOf (replacements diffHTMLContent config None cssContent jsUiContent)) after))"
proof -
  have theme: "gitHubTheme None = autoGitHubTheme" "gitHubTheme (Some Auto) = autoGitHubTheme"
    by (simp_all add: gitHubTheme_def)
  have style: "baseStyle None = autoBaseStyle" "baseStyle (Some Auto) = autoBaseStyle"
    by (simp_all add: baseStyle_def)
  have table: "replacements diffHTMLContent config None cssContent jsUiContent =
      replacements diffHTMLContent config (Some Auto) cssContent jsUiContent"
    for diffHTMLContent cssContent jsUiContent
    unfolding replacements_def theme style ..
  have same: "prepareHTML ext diffHTMLContent config None =
      prepareHTML ext diffHTMLContent config (Some Auto)"
    unfolding prepareHTML_def table ..
  have css: "replaceValue (replacements diffHTMLContent config None cssContent jsUiContent ! 1) =
     autoBaseStyle @ ''\<newline>'' @ autoGitHubTheme @ ''\<newline><style>\<newline>'' @ cssContent @
     ''\<newline></style>''"
    unfolding replacements_def theme style by simp
  have thrown: "isl (prepareHTML ext diffHTMLContent config None) =
     (isl (readFile ext (htmlWrapperTemplate config)) \<or> isl (readFile ext (cssFilePath ext)) \<or>
      isl (readFile ext (jsUiFilePath ext)))"
    by (simp add: prepareHTML_def split: sum.splits)
  have page: "prepareHTML ext diffHTMLContent config None =
      Inr (render (valueOf (replacements diffHTMLContent config None cssContent jsUiContent)) before @
           autoBaseStyle @ ''\<newline>'' @ autoGitHubTheme @ ''\<newline><style>\<newline>'' @ cssContent @
           ''\<newline></style>'' @
           render (valueOf (replacements diffHTMLContent config None cssContent jsUiContent)) after)"
    if "readFile ext (htmlWrapperTemplate config) =
          Inr (render (\<lambda>m. m) (before @ Mark ''<!--diff2html-css-->'' # after))"
      and "readFile ext (cssFilePath ext) = Inr cssContent"
      and "readFile ext (jsUiFilePath ext) = Inr jsUiContent"
      and "distinct (marks (before @ Mark ''<!--diff2html-css-->'' # after))"
      and "\<forall>k \<in> set markers. \<not> sublist k
        (render (valueOf (replacements diffHTMLContent config None cssContent jsUiContent))
           (before @ Mark ''<!--diff2html-css-->'' # after))"
    using prepareHTML_at_marker [OF that]
    by (simp only: valueOf_css_marker theme style append_assoc)
  have table_run: "prepareHTML ext diffHTMLContent config None =
      Inr (substitute (replacements diffHTMLContent config None cssContent jsUiContent) template)"
    if "readFile ext (htmlWrapperTemplate config) = Inr template"
      and "readFile ext (cssFilePath ext) = Inr cssContent"
      and "readFile ext (jsUiFilePath ext) = Inr jsUiContent"
    using that by (simp add: prepareHTML_def)
  from theme style css same thrown table_run page show ?thesis
    by (simp only: simp_thms) blast
qed

lemma auto_scan:
  "\<not> sublist ''diff2html-''
     (''<head>'' @ autoBaseStyle @ ''\<newline>'' @ autoGitHubTheme @
      ''\<newline><style>\<newline>.d2h{}\<newline></style>'' @ ''</head>'')"
  by code_simp

theorem prepareHTML_unset_colorScheme_witness:
  "prepareHTML (sample_assets (''<head>'' @ ''<!--diff2html-css-->'' @ ''</head>''))
     ''<div class=d2h></div>'' sample_config None =
   Inr (''<head>'' @ autoBaseStyle @ ''\<newline>'' @ autoGitHubTheme @
        ''\<newline><style>\<newline>.d2h{}\<newline></style>'' @ ''</head>'')"
proof -
  let ?segs = "[Lit ''<head>''] @ Mark ''<!--diff2html-css-->'' # [Lit ''</head>'']"
  let ?template = "''<head>'' @ ''<!--diff2html-css-->'' @ ''</head>''"
  have written: "render (\<lambda>m. m) ?segs = ?template" by simp
  have filled: "render (valueOf (replacements ''<div class=d2h></div>'' sample_config None
      ''.d2h{}'' ''var d2h;'')) ?segs =
    ''<head>'' @ autoBaseStyle @ ''\<newline>'' @ autoGitHubTheme @
      ''\<newline><style>\<newline>.d2h{}\<newline></style>'' @ ''</head>''"
    by (simp add: valueOf_css_marker baseStyle_def gitHubTheme_def)
  have free: "\<forall>k \<in> set markers. \<not> sublist k
      (render (valueOf (replacements ''<div class=d2h></div>'' sample_config None
         ''.d2h{}'' ''var d2h;'')) ?segs)"
    unfolding filled using auto_scan by (rule free_by_infix) simp
  have once: "distinct (marks ?segs)" by simp
  have reads: "readFile (sample_assets ?template) (htmlWrapperTemplate sample_config) =
      Inr (render (\<lambda>m. m) ?segs)"
    unfolding written by (rule sample_reads)
  have css: "readFile (sample_assets ?template) (cssFilePath (sample_assets ?template)) =
      Inr ''.d2h{}''"
    and js: "readFile (sample_assets ?template) (jsUiFilePath (sample_assets ?template)) =
      Inr ''var d2h;''"
    by (rule sample_reads)+
  have "prepareHTML (sample_assets ?template) ''<div class=d2h></div>'' sample_config None =
      Inr (render (valueOf (replacements ''<div class=d2h></div>'' sample_config None
             ''.d2h{}'' ''var d2h;'')) [Lit ''<head>''] @
           autoBaseStyle @ ''\<newline>'' @ autoGitHubTheme @ ''\<newline><style>\<newline>'' @ ''.d2h{}'' @
           ''\<newline></style>'' @
           render (valueOf (replacements ''<div class=d2h></div>'' sample_config None
             ''.d2h{}'' ''var d2h;'')) [Lit ''</head>''])"
  proof (rule mp [OF prepareHTML_unset_colorScheme [THEN conjunct2, THEN conjunct2,
      THEN conjunct2, THEN conjunct2, THEN conjunct2, THEN conjunct2, THEN conjunct2,
      THEN conjunct2]])
    show "readFile (sample_assets ?template) (htmlWrapperTemplate sample_config) =
        Inr (render (\<lambda>m. m) ?segs) \<and>
      readFile (sample_assets ?template) (cssFilePath (sample_assets ?template)) = Inr ''.d2h{}'' \<and>
      readFile (sample_assets ?template) (jsUiFilePath (sample_assets ?template)) = Inr ''var d2h;'' \<and>
      distinct (marks ?segs) \<and>
      (\<forall>k \<in> set markers. \<not> sublist k
         (render (valueOf (replacements ''<div class=d2h></div>'' sample_config None
            ''.d2h{}'' ''var d2h;'')) ?segs))"
      using reads css js once free by (intro conjI)
  qed
  then show ?thesis by simp
qed

section \<open>The script calls of the page\<close>




end
